theory Spec2Isabelle
  imports Complex_Main
begin

section \<open>Bilateral normal integration: the arrays\<close>

text \<open>
  A two-dimensional array is a list of rows. Floating-point numbers are modelled as real
  numbers (no rounding, no overflow). The inputs, the difference operators and the
  stacked system hold real numbers; the values computed in the loop may also be NaN or
  infinite, and the loop is modelled with these values.
\<close>

type_synonym 'a grid = "'a list list"
type_synonym mask = "bool grid"

definition ncols :: "'a grid \<Rightarrow> nat" where
  "ncols g = (case g of [] \<Rightarrow> 0 | r # _ \<Rightarrow> length r)"

definition rect :: "nat \<Rightarrow> nat \<Rightarrow> 'a grid \<Rightarrow> bool" where
  \<comment> \<open>an array of shape (H, W)\<close>
  "rect H W g = (length g = H \<and> list_all (\<lambda>r. length r = W) g)"

subsection \<open>The eight shifts: pad with 0, then slice\<close>

definition move_left :: "mask \<Rightarrow> mask" where
  \<comment> \<open>pad one column on the right, keep columns 1:\<close>
  "move_left m = map (\<lambda>r. tl (r @ [False])) m"

definition move_right :: "mask \<Rightarrow> mask" where
  \<comment> \<open>pad one column on the left, keep columns :-1\<close>
  "move_right m = map (\<lambda>r. butlast (False # r)) m"

definition move_top :: "mask \<Rightarrow> mask" where
  \<comment> \<open>pad one row at the bottom, keep rows 1:\<close>
  "move_top m = tl (m @ [replicate (ncols m) False])"

definition move_bottom :: "mask \<Rightarrow> mask" where
  \<comment> \<open>pad one row at the top, keep rows :-1\<close>
  "move_bottom m = butlast (replicate (ncols m) False # m)"

definition move_top_left :: "mask \<Rightarrow> mask" where
  "move_top_left m =
     map tl (tl (map (\<lambda>r. r @ [False]) m @ [replicate (ncols m + 1) False]))"

definition move_top_right :: "mask \<Rightarrow> mask" where
  "move_top_right m =
     map butlast (tl (map (\<lambda>r. False # r) m @ [replicate (ncols m + 1) False]))"

definition move_bottom_left :: "mask \<Rightarrow> mask" where
  "move_bottom_left m =
     map tl (butlast (replicate (ncols m + 1) False # map (\<lambda>r. r @ [False]) m))"

definition move_bottom_right :: "mask \<Rightarrow> mask" where
  "move_bottom_right m =
     map butlast (butlast (replicate (ncols m + 1) False # map (\<lambda>r. False # r) m))"

definition logical_and :: "mask \<Rightarrow> mask \<Rightarrow> mask" where
  \<comment> \<open>elementwise, also the product of two boolean arrays\<close>
  "logical_and a b = map2 (map2 (\<and>)) a b"

subsection \<open>Boolean indexing\<close>

definition true_cols :: "bool list \<Rightarrow> nat list" where
  "true_cols r = filter (\<lambda>j. r ! j) [0..<length r]"

definition nonzero :: "mask \<Rightarrow> (nat \<times> nat) list" where
  \<comment> \<open>the positions of the True cells, in row-major order\<close>
  "nonzero m = concat (map (\<lambda>i. map (Pair i) (true_cols (m ! i))) [0..<length m])"

definition cell :: "'a grid \<Rightarrow> nat \<times> nat \<Rightarrow> 'a" where
  "cell g p = g ! fst p ! snd p"

definition take_mask :: "'a grid \<Rightarrow> mask \<Rightarrow> 'a list" where
  \<comment> \<open>\<open>g[m]\<close>: the cells of g at the True cells of m, in row-major order\<close>
  "take_mask g m = map (cell g) (nonzero m)"

definition set_cell :: "'a grid \<Rightarrow> nat \<times> nat \<Rightarrow> 'a \<Rightarrow> 'a grid" where
  "set_cell g p v = g[fst p := (g ! fst p)[snd p := v]]"

definition put_mask :: "'a grid \<Rightarrow> mask \<Rightarrow> 'a list \<Rightarrow> 'a grid" where
  \<comment> \<open>\<open>g[m] = vs\<close>: the k-th True cell of m receives the k-th value\<close>
  "put_mask g m vs = foldl (\<lambda>g (p, v). set_cell g p v) g (zip (nonzero m) vs)"

definition mask_sum :: "mask \<Rightarrow> nat" where
  \<comment> \<open>\<open>sum(mask)\<close>: the number of True cells\<close>
  "mask_sum m = length (filter id (concat m))"

definition zeros_like :: "'b grid \<Rightarrow> nat grid" where
  "zeros_like m = map (map (\<lambda>_. 0)) m"

definition pixel_index :: "mask \<Rightarrow> nat grid" where
  \<comment> \<open>\<open>pixel_idx = zeros_like(mask); pixel_idx[mask] = arange(sum(mask))\<close>\<close>
  "pixel_index m = put_mask (zeros_like m) m [0..<mask_sum m]"

subsection \<open>Sparse matrices in coordinate format\<close>

record coo =
  shape :: "nat \<times> nat"
  entries :: "(nat \<times> nat \<times> real) list"

definition coo_matrix :: "real list \<Rightarrow> nat list \<Rightarrow> nat list \<Rightarrow> nat \<times> nat \<Rightarrow> coo" where
  \<comment> \<open>\<open>coo_matrix((data, (row, col)), shape)\<close>: one stored entry per position of the
      three arrays\<close>
  "coo_matrix dat row col sh = \<lparr>shape = sh, entries = zip row (zip col dat)\<rparr>"

definition div_scalar :: "coo \<Rightarrow> real \<Rightarrow> coo" where
  "div_scalar D s = D\<lparr>entries := map (\<lambda>(r, c, v). (r, c, v / s)) (entries D)\<rparr>"

definition row_entries :: "coo \<Rightarrow> nat \<Rightarrow> (nat \<times> real) list" where
  \<comment> \<open>the stored entries of row r: column and coefficient\<close>
  "row_entries D r = map snd (filter (\<lambda>e. fst e = r) (entries D))"

definition spmv :: "coo \<Rightarrow> real list \<Rightarrow> real list" where
  \<comment> \<open>\<open>D @ z\<close>\<close>
  "spmv D z =
     map (\<lambda>r. sum_list (map (\<lambda>(c, v). v * z ! c) (row_entries D r))) [0..<fst (shape D)]"

definition entry :: "coo \<Rightarrow> nat \<Rightarrow> nat \<Rightarrow> real" where
  \<comment> \<open>the coefficient at (r, c): entries stored twice add up\<close>
  "entry D r c = sum_list (map snd (filter (\<lambda>e. fst e = c) (row_entries D r)))"

definition diag_mul :: "real list \<Rightarrow> coo \<Rightarrow> coo" where
  \<comment> \<open>\<open>diags(d) @ D\<close>: row r of D scaled by \<open>d[r]\<close>\<close>
  "diag_mul d D = D\<lparr>entries := map (\<lambda>(r, c, v). (r, c, d ! r * v)) (entries D)\<rparr>"

definition shift_rows :: "nat \<Rightarrow> coo \<Rightarrow> (nat \<times> nat \<times> real) list" where
  "shift_rows k D = map (\<lambda>(r, c, v). (k + r, c, v)) (entries D)"

fun vstack_from :: "nat \<Rightarrow> coo list \<Rightarrow> (nat \<times> nat \<times> real) list" where
  "vstack_from k [] = []"
| "vstack_from k (D # Ds) = shift_rows k D @ vstack_from (k + fst (shape D)) Ds"

definition vstack :: "coo list \<Rightarrow> coo" where
  "vstack Ds =
     \<lparr>shape = (sum_list (map (\<lambda>D. fst (shape D)) Ds), (case Ds of [] \<Rightarrow> 0 | D # _ \<Rightarrow> snd (shape D))),
      entries = vstack_from 0 Ds\<rparr>"

section \<open>The one-sided difference operators\<close>

definition data_term :: "nat \<Rightarrow> real list" where
  \<comment> \<open>\<open>[-1] * n + [1] * n\<close>\<close>
  "data_term n = replicate n (- 1) @ replicate n 1"

definition tile2 :: "'a list \<Rightarrow> 'a list" where
  "tile2 xs = xs @ xs"

definition has_left_mask :: "mask \<Rightarrow> mask" where
  "has_left_mask m = logical_and (move_right m) m"

definition has_right_mask :: "mask \<Rightarrow> mask" where
  "has_right_mask m = logical_and (move_left m) m"

definition has_bottom_mask :: "mask \<Rightarrow> mask" where
  "has_bottom_mask m = logical_and (move_top m) m"

definition has_top_mask :: "mask \<Rightarrow> mask" where
  "has_top_mask m = logical_and (move_bottom m) m"

text \<open>
  The four matrices before the division by \<open>step_size\<close>. Only the pixels that have
  the neighbour contribute a row holding -1 and 1.
\<close>

definition D_horizontal_neg :: "mask \<Rightarrow> coo" where
  "D_horizontal_neg m =
    (let pixel_idx = pixel_index m; num_pixel = mask_sum m;
         data_term = data_term (mask_sum (has_left_mask m));
         row_idx = take_mask pixel_idx (has_left_mask m);
         row_idx = tile2 row_idx;
         col_idx = take_mask pixel_idx (move_left (has_left_mask m))
                     @ take_mask pixel_idx (has_left_mask m)
     in coo_matrix data_term row_idx col_idx (num_pixel, num_pixel))"

definition D_horizontal_pos :: "mask \<Rightarrow> coo" where
  "D_horizontal_pos m =
    (let pixel_idx = pixel_index m; num_pixel = mask_sum m;
         data_term = data_term (mask_sum (has_right_mask m));
         row_idx = take_mask pixel_idx (has_right_mask m);
         row_idx = tile2 row_idx;
         col_idx = take_mask pixel_idx (has_right_mask m)
                     @ take_mask pixel_idx (move_right (has_right_mask m))
     in coo_matrix data_term row_idx col_idx (num_pixel, num_pixel))"

definition D_vertical_pos :: "mask \<Rightarrow> coo" where
  "D_vertical_pos m =
    (let pixel_idx = pixel_index m; num_pixel = mask_sum m;
         data_term = data_term (mask_sum (has_top_mask m));
         row_idx = take_mask pixel_idx (has_top_mask m);
         row_idx = tile2 row_idx;
         col_idx = take_mask pixel_idx (has_top_mask m)
                     @ take_mask pixel_idx (move_top (has_top_mask m))
     in coo_matrix data_term row_idx col_idx (num_pixel, num_pixel))"

definition D_vertical_neg :: "mask \<Rightarrow> coo" where
  "D_vertical_neg m =
    (let pixel_idx = pixel_index m; num_pixel = mask_sum m;
         data_term = data_term (mask_sum (has_bottom_mask m));
         row_idx = take_mask pixel_idx (has_bottom_mask m);
         row_idx = tile2 row_idx;
         col_idx = take_mask pixel_idx (move_bottom (has_bottom_mask m))
                     @ take_mask pixel_idx (has_bottom_mask m)
     in coo_matrix data_term row_idx col_idx (num_pixel, num_pixel))"

definition generate_dx_dy :: "mask \<Rightarrow> real \<Rightarrow> coo \<times> coo \<times> coo \<times> coo" where
  "generate_dx_dy m step_size =
     (div_scalar (D_horizontal_pos m) step_size, div_scalar (D_horizontal_neg m) step_size,
      div_scalar (D_vertical_pos m) step_size, div_scalar (D_vertical_neg m) step_size)"

section \<open>The quad facets\<close>

definition facet_top_left_mask :: "mask \<Rightarrow> mask" where
  \<comment> \<open>\<open>move_top(mask) * move_left(mask) * move_top_left(mask) * mask\<close>\<close>
  "facet_top_left_mask m =
     logical_and (logical_and (logical_and (move_top m) (move_left m)) (move_top_left m)) m"

definition construct_facets_from :: "mask \<Rightarrow> nat list list" where
  "construct_facets_from m =
    (let idx = pixel_index m;
         facet_top_left_mask = facet_top_left_mask m;
         facet_top_right_mask = move_right facet_top_left_mask;
         facet_bottom_left_mask = move_bottom facet_top_left_mask;
         facet_bottom_right_mask = move_bottom_right facet_top_left_mask
     in map (\<lambda>(a, b, c, d). [4, a, b, c, d])
          (zip (take_mask idx facet_top_left_mask)
            (zip (take_mask idx facet_bottom_left_mask)
              (zip (take_mask idx facet_bottom_right_mask)
                   (take_mask idx facet_top_right_mask)))))"

section \<open>Coefficients and the stacked system\<close>

type_synonym pixel = "real \<times> real \<times> real"

definition channel :: "nat \<Rightarrow> pixel \<Rightarrow> real" where
  \<comment> \<open>the three channels of a pixel of the normal map\<close>
  "channel c p = (case p of (p0, p1, p2) \<Rightarrow> if c = 0 then p0 else if c = 1 then p1 else p2)"

definition meshgrid :: "'a list \<Rightarrow> 'a list \<Rightarrow> 'a grid \<times> 'a grid" where
  \<comment> \<open>\<open>meshgrid(xs, ys)\<close> with the default indexing: two arrays of shape
      (len ys, len xs), the first repeats xs along the rows, the second ys along the columns\<close>
  "meshgrid xs ys = (map (\<lambda>y. xs) ys, map (\<lambda>y. map (\<lambda>x. y) xs) ys)"

definition flip0 :: "'a grid \<Rightarrow> 'a grid" where
  "flip0 g = rev g"

definition range_real :: "nat \<Rightarrow> real list" where
  "range_real n = map real [0..<n]"

definition vadd :: "real list \<Rightarrow> real list \<Rightarrow> real list" where
  "vadd xs ys = map2 (+) xs ys"

definition vsub :: "real list \<Rightarrow> real list \<Rightarrow> real list" where
  "vsub xs ys = map2 (-) xs ys"

definition vmul :: "real list \<Rightarrow> real list \<Rightarrow> real list" where
  "vmul xs ys = map2 (*) xs ys"

definition smul :: "real \<Rightarrow> real list \<Rightarrow> real list" where
  "smul c xs = map (\<lambda>x. c * x) xs"

definition vneg :: "real list \<Rightarrow> real list" where
  "vneg xs = map uminus xs"

definition coefficients ::
  "real grid option \<Rightarrow> mask \<Rightarrow> real list \<Rightarrow> real list \<Rightarrow> real list \<Rightarrow> real list \<times> real list" where
  \<comment> \<open>the diagonals of \<open>Nz_u\<close> and \<open>Nz_v\<close>\<close>
  "coefficients K normal_mask nx ny nz =
    (case K of
       Some K \<Rightarrow>
         (let H = length normal_mask; W = ncols normal_mask;
              (yy, xx) = meshgrid (range_real W) (range_real H);
              xx = flip0 xx;
              cx = K ! 0 ! 2; cy = K ! 1 ! 2; fx = K ! 0 ! 0; fy = K ! 1 ! 1;
              uu = map (\<lambda>x. x - cx) (take_mask xx normal_mask);
              vv = map (\<lambda>y. y - cy) (take_mask yy normal_mask)
          in (vadd (vadd (vmul uu nx) (vmul vv ny)) (smul fx nz),
              vadd (vadd (vmul uu nx) (vmul vv ny)) (smul fy nz)))
     | None \<Rightarrow> (nz, nz))"

record system =
  s_nx :: "real list"
  s_ny :: "real list"
  s_nz :: "real list"
  s_Nz_u :: "real list"
  s_Nz_v :: "real list"
  s_A1 :: coo
  s_A2 :: coo
  s_A3 :: coo
  s_A4 :: coo
  s_A :: coo
  s_b :: "real list"

definition assemble :: "pixel grid \<Rightarrow> mask \<Rightarrow> real grid option \<Rightarrow> real \<Rightarrow> system" where
  "assemble normal_map normal_mask K step_size =
    (let nx = map (channel 1) (take_mask normal_map normal_mask);
         ny = map (channel 0) (take_mask normal_map normal_mask);
         nz = map (\<lambda>p. - channel 2 p) (take_mask normal_map normal_mask);
         (Nz_u, Nz_v) = coefficients K normal_mask nx ny nz;
         (Dvp, Dvn, Dup, Dun) = generate_dx_dy normal_mask step_size;
         A1 = diag_mul Nz_u Dup;
         A2 = diag_mul Nz_u Dun;
         A3 = diag_mul Nz_v Dvp;
         A4 = diag_mul Nz_v Dvn
     in \<lparr>s_nx = nx, s_ny = ny, s_nz = nz, s_Nz_u = Nz_u, s_Nz_v = Nz_v,
         s_A1 = A1, s_A2 = A2, s_A3 = A3, s_A4 = A4,
         s_A = vstack [A1, A2, A3, A4],
         s_b = vneg nx @ vneg nx @ vneg ny @ vneg ny\<rparr>)"


section \<open>The reweighted least-squares loop\<close>

subsection \<open>Numbers that may be infinite or NaN\<close>

text \<open>
  The depth vector, the weights and the energies are computed from the result of the
  solver and from the depth prior, and the program goes on when they hold NaN or an
  infinity. In the loop a number is therefore a real number, one of the two infinities
  or NaN, with the arithmetic of the floating-point standard on these values. A zero
  divisor counts as +0.
\<close>

datatype fl = Fin real | PInf | NInf | NaN

fun fneg :: "fl \<Rightarrow> fl" where
  "fneg (Fin a) = Fin (- a)"
| "fneg PInf = NInf"
| "fneg NInf = PInf"
| "fneg NaN = NaN"

fun fadd :: "fl \<Rightarrow> fl \<Rightarrow> fl" where
  "fadd (Fin a) (Fin b) = Fin (a + b)"
| "fadd NaN y = NaN"
| "fadd x NaN = NaN"
| "fadd PInf NInf = NaN"
| "fadd NInf PInf = NaN"
| "fadd PInf y = PInf"
| "fadd x PInf = PInf"
| "fadd NInf y = NInf"
| "fadd x NInf = NInf"

definition fsub :: "fl \<Rightarrow> fl \<Rightarrow> fl" where
  "fsub x y = fadd x (fneg y)"

fun fmul :: "fl \<Rightarrow> fl \<Rightarrow> fl" where
  "fmul (Fin a) (Fin b) = Fin (a * b)"
| "fmul NaN y = NaN"
| "fmul x NaN = NaN"
| "fmul PInf (Fin b) = (if b = 0 then NaN else if 0 < b then PInf else NInf)"
| "fmul NInf (Fin b) = (if b = 0 then NaN else if 0 < b then NInf else PInf)"
| "fmul (Fin a) PInf = (if a = 0 then NaN else if 0 < a then PInf else NInf)"
| "fmul (Fin a) NInf = (if a = 0 then NaN else if 0 < a then NInf else PInf)"
| "fmul PInf PInf = PInf"
| "fmul NInf NInf = PInf"
| "fmul PInf NInf = NInf"
| "fmul NInf PInf = NInf"

fun fdiv :: "fl \<Rightarrow> fl \<Rightarrow> fl" where
  "fdiv (Fin a) (Fin b) =
     (if b \<noteq> 0 then Fin (a / b) else if a = 0 then NaN else if 0 < a then PInf else NInf)"
| "fdiv NaN y = NaN"
| "fdiv x NaN = NaN"
| "fdiv (Fin a) PInf = Fin 0"
| "fdiv (Fin a) NInf = Fin 0"
| "fdiv PInf (Fin b) = (if 0 \<le> b then PInf else NInf)"
| "fdiv NInf (Fin b) = (if 0 \<le> b then NInf else PInf)"
| "fdiv PInf PInf = NaN"
| "fdiv PInf NInf = NaN"
| "fdiv NInf PInf = NaN"
| "fdiv NInf NInf = NaN"

fun fabs :: "fl \<Rightarrow> fl" where
  "fabs (Fin a) = Fin \<bar>a\<bar>"
| "fabs PInf = PInf"
| "fabs NInf = PInf"
| "fabs NaN = NaN"

fun fexp :: "fl \<Rightarrow> fl" where
  "fexp (Fin a) = Fin (exp a)"
| "fexp PInf = PInf"
| "fexp NInf = Fin 0"
| "fexp NaN = NaN"

fun flog :: "fl \<Rightarrow> fl" where
  "flog (Fin a) = (if 0 < a then Fin (ln a) else if a = 0 then NInf else NaN)"
| "flog PInf = PInf"
| "flog NInf = NaN"
| "flog NaN = NaN"

fun flt :: "fl \<Rightarrow> fl \<Rightarrow> bool" where
  \<comment> \<open>\<open>x < y\<close>: false as soon as one side is NaN\<close>
  "flt (Fin a) (Fin b) = (a < b)"
| "flt NaN y = False"
| "flt x NaN = False"
| "flt NInf NInf = False"
| "flt NInf y = True"
| "flt x PInf = (x \<noteq> PInf)"
| "flt PInf y = False"
| "flt (Fin a) NInf = False"

definition fsq :: "fl \<Rightarrow> fl" where
  \<comment> \<open>\<open>x ** 2\<close>\<close>
  "fsq x = fmul x x"

definition fsum :: "fl list \<Rightarrow> fl" where
  "fsum xs = foldr fadd xs (Fin 0)"

definition fvadd :: "fl list \<Rightarrow> fl list \<Rightarrow> fl list" where
  "fvadd xs ys = map2 fadd xs ys"

definition fvsub :: "fl list \<Rightarrow> fl list \<Rightarrow> fl list" where
  "fvsub xs ys = map2 fsub xs ys"

definition fvmul :: "fl list \<Rightarrow> fl list \<Rightarrow> fl list" where
  "fvmul xs ys = map2 fmul xs ys"

definition fspmv :: "coo \<Rightarrow> fl list \<Rightarrow> fl list" where
  \<comment> \<open>\<open>D @ z\<close> for a sparse D: row r sums the products of its stored entries only, so
      a row without entries gives 0 whatever z holds\<close>
  "fspmv D z =
     map (\<lambda>r. fsum (map (\<lambda>(c, v). fmul (Fin v) (z ! c)) (row_entries D r))) [0..<fst (shape D)]"

subsection \<open>The pieces of an iteration\<close>

definition sigmoid :: "fl \<Rightarrow> real \<Rightarrow> fl" where
  \<comment> \<open>\<open>1 / (1 + exp(-k * x))\<close>\<close>
  "sigmoid x k = fdiv (Fin 1) (fadd (Fin 1) (fexp (fmul (Fin (- k)) x)))"

definition quadratic_energy :: "coo \<Rightarrow> fl list \<Rightarrow> fl list \<Rightarrow> real list \<Rightarrow> fl" where
  \<comment> \<open>\<open>(A @ z - b).T @ W @ (A @ z - b)\<close>, W the diagonal\<close>
  "quadratic_energy A W z b =
     (let r = fvsub (fspmv A z) (map Fin b) in fsum (fvmul (fvmul r W) r))"

type_synonym fl_matrix = "(nat \<times> nat) \<times> (nat \<times> nat \<times> fl) list"

definition normal_matrix :: "coo \<Rightarrow> fl list \<Rightarrow> fl_matrix" where
  \<comment> \<open>\<open>A.T @ W @ A\<close>: the shape and the products \<open>A[r, i] * W[r] * A[r, j]\<close> of the
      stored entries of every row r, at (i, j); entries at one position add up\<close>
  "normal_matrix A W =
     ((snd (shape A), snd (shape A)),
      concat (map (\<lambda>r.
        concat (map (\<lambda>(i, v). map (\<lambda>(j, w). (i, j, fmul (fmul (Fin v) (W ! r)) (Fin w)))
                                    (row_entries A r))
                    (row_entries A r)))
        [0..<fst (shape A)]))"

definition normal_rhs :: "coo \<Rightarrow> fl list \<Rightarrow> real list \<Rightarrow> fl list" where
  \<comment> \<open>\<open>A.T @ W @ b\<close>: entry i sums \<open>A[r, i] * W[r] * b[r]\<close> over the stored entries of
      column i\<close>
  "normal_rhs A W b =
     map (\<lambda>i. fsum (map (\<lambda>(r, c, v). fmul (fmul (Fin v) (W ! r)) (Fin (b ! r)))
                         (filter (\<lambda>(r, c, v). c = i) (entries A))))
         [0..<snd (shape A)]"

definition add_diag :: "fl_matrix \<Rightarrow> real list \<Rightarrow> fl_matrix" where
  \<comment> \<open>a sparse matrix plus \<open>diags(d)\<close>, which stores its whole diagonal\<close>
  "add_diag G d = (fst G, snd G @ map (\<lambda>i. (i, i, Fin (d ! i))) [0..<length d])"

definition mark_zero :: "fl list \<Rightarrow> fl list" where
  \<comment> \<open>\<open>depth_diff[depth_diff == 0] = nan\<close>\<close>
  "mark_zero ds = map (\<lambda>d. if d = Fin 0 then NaN else d) ds"

definition nanmean :: "fl list \<Rightarrow> fl" where
  \<comment> \<open>the mean of the entries that are not NaN; NaN when there is none\<close>
  "nanmean xs =
     (let ys = filter (\<lambda>x. x \<noteq> NaN) xs
      in if ys = [] then NaN else fdiv (fsum ys) (Fin (real (length ys))))"

definition depth_offset :: "real list \<Rightarrow> fl list \<Rightarrow> fl list \<Rightarrow> fl" where
  \<comment> \<open>\<open>depth_diff = M @ (z_prior - z)\<close>, its zeros replaced by NaN, then nanmean\<close>
  "depth_offset m z_prior z = nanmean (mark_zero (fvmul (map Fin m) (fvsub z_prior z)))"

definition add_scalar :: "fl list \<Rightarrow> fl \<Rightarrow> fl list" where
  \<comment> \<open>\<open>z + offset\<close>\<close>
  "add_scalar z offset = map (\<lambda>x. fadd x offset) z"

definition update_weights :: "coo \<Rightarrow> coo \<Rightarrow> fl list \<Rightarrow> real \<Rightarrow> fl list" where
  \<comment> \<open>\<open>sigmoid((Aneg @ z) ** 2 - (Apos @ z) ** 2, k)\<close>\<close>
  "update_weights Aneg Apos z k =
     map (\<lambda>x. sigmoid x k) (fvsub (map fsq (fspmv Aneg z)) (map fsq (fspmv Apos z)))"

definition weight_diagonal :: "fl list \<Rightarrow> fl list \<Rightarrow> fl list" where
  \<comment> \<open>\<open>concatenate((wu, 1 - wu, wv, 1 - wv))\<close>\<close>
  "weight_diagonal wu wv = wu @ map (fsub (Fin 1)) wu @ wv @ map (fsub (Fin 1)) wv"

definition relative_energy :: "fl \<Rightarrow> fl \<Rightarrow> fl" where
  \<comment> \<open>\<open>abs(energy - energy_old) / energy_old\<close>\<close>
  "relative_energy energy energy_old = fdiv (fabs (fsub energy energy_old)) energy_old"

definition below :: "fl \<Rightarrow> real \<Rightarrow> bool" where
  \<comment> \<open>\<open>x < tol\<close>\<close>
  "below x tol = flt x (Fin tol)"

record prior =
  p_m :: "real list"
  p_z_prior :: "fl list"

definition make_prior :: "real grid \<Rightarrow> mask \<Rightarrow> mask \<Rightarrow> bool \<Rightarrow> prior" where
  \<comment> \<open>\<open>m = depth_mask[normal_mask].astype(int)\<close> and
      \<open>z_prior = log(depth_map)[normal_mask]\<close> with a camera matrix, else
      \<open>depth_map[normal_mask]\<close>\<close>
  "make_prior depth_map depth_mask normal_mask perspective =
    \<lparr>p_m = map of_bool (take_mask depth_mask normal_mask),
     p_z_prior =
       (let d = map Fin (take_mask depth_map normal_mask)
        in if perspective then map flog d else d)\<rparr>"

record irls_state =
  st_z :: "fl list"
  st_W :: "fl list"
  st_energy :: fl
  st_energy_list :: "fl list"
  st_wu :: "fl list option"
  st_wv :: "fl list option"

type_synonym solver = "fl_matrix \<Rightarrow> fl list \<Rightarrow> fl list \<Rightarrow> nat \<Rightarrow> real \<Rightarrow> fl list"

definition solve_step ::
  "solver \<Rightarrow> system \<Rightarrow> prior option \<Rightarrow> real \<Rightarrow> nat \<Rightarrow> real \<Rightarrow> irls_state \<Rightarrow> fl list" where
  \<comment> \<open>The first half of an iteration: the new z. The conjugate-gradient solver
      \<open>cg(A, b, x0, maxiter, tol)\<close> is a parameter.\<close>
  "solve_step cg sys pr lambda1 cg_max_iter cg_tol st =
    (case pr of
       Some p \<Rightarrow>
         (let offset = depth_offset (p_m p) (p_z_prior p) (st_z st);
              z1 = add_scalar (st_z st) offset;
              A_mat = add_diag (normal_matrix (s_A sys) (st_W st)) (smul lambda1 (p_m p));
              b_mat = fvadd (normal_rhs (s_A sys) (st_W st) (s_b sys))
                            (fvmul (map Fin (smul lambda1 (p_m p))) (p_z_prior p))
          in cg A_mat b_mat z1 cg_max_iter cg_tol)
     | None \<Rightarrow>
         cg (normal_matrix (s_A sys) (st_W st)) (normal_rhs (s_A sys) (st_W st) (s_b sys)) (st_z st)
            cg_max_iter cg_tol)"

definition irls_iteration ::
  "solver \<Rightarrow> system \<Rightarrow> prior option \<Rightarrow> real \<Rightarrow> real \<Rightarrow> nat \<Rightarrow> real \<Rightarrow> irls_state
     \<Rightarrow> irls_state" where
  \<comment> \<open>one pass of the loop body up to \<open>energy_list.append(energy)\<close>\<close>
  "irls_iteration cg sys pr k lambda1 cg_max_iter cg_tol st =
    (let z' = solve_step cg sys pr lambda1 cg_max_iter cg_tol st;
         wu' = update_weights (s_A2 sys) (s_A1 sys) z' k;
         wv' = update_weights (s_A4 sys) (s_A3 sys) z' k;
         W' = weight_diagonal wu' wv';
         energy' = quadratic_energy (s_A sys) W' z' (s_b sys)
     in \<lparr>st_z = z', st_W = W', st_energy = energy',
         st_energy_list = st_energy_list st @ [energy'],
         st_wu = Some wu', st_wv = Some wv'\<rparr>)"

datatype terminal = Converged | Exhausted

fun irls_loop ::
  "(irls_state \<Rightarrow> irls_state) \<Rightarrow> real \<Rightarrow> nat \<Rightarrow> irls_state \<Rightarrow> irls_state \<times> terminal" where
  \<comment> \<open>\<open>for i in range(max_iter)\<close>: the body, then the test
      \<open>relative_energy < tol\<close> against the energy before the body\<close>
  "irls_loop body tol 0 st = (st, Exhausted)"
| "irls_loop body tol (Suc n) st =
     (let st' = body st
      in if below (relative_energy (st_energy st') (st_energy st)) tol
         then (st', Converged)
         else irls_loop body tol n st')"

definition initial_state :: "system \<Rightarrow> mask \<Rightarrow> irls_state" where
  "initial_state sys normal_mask =
    (let W = map Fin (smul 0.5 (map (\<lambda>_. 1) (s_b sys)));
         z = map Fin (replicate (mask_sum normal_mask) 0)
     in \<lparr>st_z = z, st_W = W, st_energy = quadratic_energy (s_A sys) W z (s_b sys),
         st_energy_list = [], st_wu = None, st_wv = None\<rparr>)"

section \<open>The outputs\<close>

record outputs =
  out_depth_map :: "fl grid"
  out_facets :: "nat list list"
  out_wu_map :: "fl grid"
  out_wv_map :: "fl grid"
  out_energy_list :: "fl list"

definition nan_like :: "'a grid \<Rightarrow> fl grid" where
  \<comment> \<open>\<open>ones_like(mask) * nan\<close>\<close>
  "nan_like g = map (map (\<lambda>_. NaN)) g"

definition mean_negative :: "real list \<Rightarrow> bool" where
  \<comment> \<open>\<open>xs.mean() < 0\<close>; the mean of nothing is NaN\<close>
  "mean_negative xs = (xs \<noteq> [] \<and> sum_list xs / real (length xs) < 0)"

datatype failure = UnboundLocalError

definition finish ::
  "pixel grid \<Rightarrow> mask \<Rightarrow> bool \<Rightarrow> irls_state \<Rightarrow> failure + outputs" where
  \<comment> \<open>The statements after the loop. The mesh is represented by its facets; the vertex
      positions are not part of the model. \<open>wu\<close> and \<open>wv\<close> are bound by the loop body
      only.\<close>
  "finish normal_map normal_mask perspective st =
    (let depth_map = put_mask (nan_like normal_mask) normal_mask (st_z st);
         depth_map = (if perspective then map (map fexp) depth_map else depth_map);
         facets = construct_facets_from normal_mask;
         facets = (if mean_negative (map (channel 2) (concat normal_map))
                   then map (\<lambda>f. [f ! 0, f ! 1, f ! 4, f ! 3, f ! 2]) facets else facets)
     in case st_wv st of
          None \<Rightarrow> Inl UnboundLocalError
        | Some wv' \<Rightarrow>
            (case st_wu st of
               None \<Rightarrow> Inl UnboundLocalError
             | Some wu' \<Rightarrow>
                 Inr \<lparr>out_depth_map = depth_map, out_facets = facets,
                      out_wu_map = put_mask (nan_like normal_mask) normal_mask wv',
                      out_wv_map = put_mask (nan_like normal_mask) normal_mask wu',
                      out_energy_list = st_energy_list st\<rparr>))"

definition bilateral_normal_integration ::
  "solver \<Rightarrow> pixel grid \<Rightarrow> mask \<Rightarrow> real \<Rightarrow> real \<Rightarrow> (real grid \<times> mask) option \<Rightarrow> real grid option
     \<Rightarrow> real \<Rightarrow> nat \<Rightarrow> real \<Rightarrow> nat \<Rightarrow> real \<Rightarrow> failure + outputs" where
  "bilateral_normal_integration cg normal_map normal_mask k lambda1 depth K step_size max_iter tol
      cg_max_iter cg_tol =
    (let sys = assemble normal_map normal_mask K step_size;
         st0 = initial_state sys normal_mask;
         pr = map_option (\<lambda>(depth_map, depth_mask).
                 make_prior depth_map depth_mask normal_mask (K \<noteq> None)) depth
     in finish normal_map normal_mask (K \<noteq> None)
          (fst (irls_loop (irls_iteration cg sys pr k lambda1 cg_max_iter cg_tol) tol max_iter st0)))"

section \<open>Test fields\<close>

text \<open>A fully connected rectangular mask and a linear ramp depth field.\<close>

definition full_mask :: "nat \<Rightarrow> nat \<Rightarrow> mask" where
  "full_mask H W = replicate H (replicate W True)"

definition ramp :: "real \<Rightarrow> real \<Rightarrow> real \<Rightarrow> nat \<Rightarrow> nat \<Rightarrow> real grid" where
  "ramp a b c H W = map (\<lambda>i. map (\<lambda>j. a * real i + b * real j + c) [0..<W]) [0..<H]"

text \<open>
  A mask of one column and two rows, with normals facing the camera and with normals
  tilted along the column, and two stand-ins for the conjugate-gradient solver: one
  returns a fixed vector, one returns its starting point (as a solver that is allowed no
  iteration does).
\<close>

definition column_mask :: mask where
  "column_mask = [[True], [True]]"

definition facing_normals :: "pixel grid" where
  "facing_normals = [[(0, 0, - 1)], [(0, 0, - 1)]]"

definition column_system :: system where
  "column_system = assemble facing_normals column_mask None 1"

definition tilted_normals :: "pixel grid" where
  "tilted_normals = [[(0, 1, - 1)], [(0, 1 / 2, - 1)]]"

definition tilted_system :: system where
  "tilted_system = assemble tilted_normals column_mask None 1"

definition constant_solver :: "fl list \<Rightarrow> solver" where
  "constant_solver x = (\<lambda>A_mat b_mat x0 maxiter tol. x)"

definition warm_start_solver :: solver where
  "warm_start_solver = (\<lambda>A_mat b_mat x0 maxiter tol. x0)"

section \<open>Boolean indexing and the shifts\<close>

lemma true_cols_Cons: "true_cols (x # xs) = (if x then [0] else []) @ map Suc (true_cols xs)"
proof -
  have "[0..<length (x # xs)] = 0 # map Suc [0..<length xs]"
    by (simp only: length_Cons map_Suc_upt upt_conv_Cons[of 0, OF zero_less_Suc])
  then show ?thesis by (simp add: true_cols_def filter_map comp_def)
qed

lemma true_cols_snoc: "true_cols (xs @ [y]) = true_cols xs @ (if y then [length xs] else [])"
proof -
  have "filter (\<lambda>j. (xs @ [y]) ! j) [0..<length xs] = filter (\<lambda>j. xs ! j) [0..<length xs]"
    by (rule filter_cong) (auto simp: nth_append)
  then show ?thesis by (simp add: true_cols_def)
qed

lemma true_cols_Nil [simp]: "true_cols [] = []"
  by (simp add: true_cols_def)

lemma true_cols_replicate_False [simp]: "true_cols (replicate n False) = []"
  by (simp add: true_cols_def)

lemma set_true_cols: "set (true_cols r) = {j. j < length r \<and> r ! j}"
  by (auto simp: true_cols_def)

lemma distinct_true_cols [simp]: "distinct (true_cols r)"
  by (simp add: true_cols_def)

lemma length_true_cols: "length (true_cols r) = length (filter id r)"
proof (induction r)
  case Nil show ?case by simp
next
  case (Cons x xs) then show ?case by (simp add: true_cols_Cons)
qed

lemma nonzero_Nil [simp]: "nonzero [] = []"
  by (simp add: nonzero_def)

lemma nonzero_Cons:
  "nonzero (r # m) = map (Pair 0) (true_cols r) @ map (\<lambda>p. (Suc (fst p), snd p)) (nonzero m)"
proof -
  have "[0..<length (r # m)] = 0 # map Suc [0..<length m]"
    by (simp only: length_Cons map_Suc_upt upt_conv_Cons[of 0, OF zero_less_Suc])
  then show ?thesis
    by (simp add: nonzero_def map_concat comp_def)
qed

lemma nonzero_snoc:
  "nonzero (m @ [r]) = nonzero m @ map (Pair (length m)) (true_cols r)"
proof -
  have "map (\<lambda>i. map (Pair i) (true_cols ((m @ [r]) ! i))) [0..<length m]
      = map (\<lambda>i. map (Pair i) (true_cols (m ! i))) [0..<length m]"
    by (rule map_cong) (auto simp: nth_append)
  then show ?thesis by (simp add: nonzero_def del: map_eq_conv)
qed

lemma length_nonzero: "length (nonzero m) = mask_sum m"
proof (induction m)
  case Nil show ?case by (simp add: mask_sum_def)
next
  case (Cons r m) then show ?case
    by (simp add: nonzero_Cons mask_sum_def length_true_cols)
qed

lemma set_nonzero:
  "p \<in> set (nonzero m) \<longleftrightarrow> fst p < length m \<and> snd p < length (m ! fst p) \<and> m ! fst p ! snd p"
  by (cases p) (auto simp: nonzero_def set_true_cols)

lemma distinct_nonzero [simp]: "distinct (nonzero m)"
proof (induction m)
  case Nil show ?case by simp
next
  case (Cons r m)
  have "inj (\<lambda>p::nat \<times> nat. (Suc (fst p), snd p))" by (auto simp: inj_on_def prod_eq_iff)
  then show ?case using Cons
    by (auto simp: nonzero_Cons distinct_map inj_on_def)
qed

lemma tc_move_left_row:
  "r = [] \<or> \<not> hd r \<Longrightarrow> true_cols (tl (r @ [False])) = map (\<lambda>j. j - 1) (true_cols r)"
  by (cases r) (auto simp: true_cols_Cons true_cols_snoc comp_def)

lemma tc_butlast: "r \<noteq> [] \<Longrightarrow> \<not> last r \<Longrightarrow> true_cols (butlast r) = true_cols r"
proof -
  assume a: "r \<noteq> []" "\<not> last r"
  have "butlast r @ [last r] = r" using a(1) by (rule append_butlast_last_id)
  then have "true_cols r = true_cols (butlast r @ [last r])" by simp
  also have "\<dots> = true_cols (butlast r)" using a(2) by (simp only: true_cols_snoc) simp
  finally show ?thesis by simp
qed

lemma tc_move_right_row:
  "r = [] \<or> \<not> last r \<Longrightarrow> true_cols (butlast (False # r)) = map Suc (true_cols r)"
proof (cases "r = []")
  case True then show ?thesis by simp
next
  case False
  assume "r = [] \<or> \<not> last r"
  then have "\<not> last r" using False by simp
  then show ?thesis using False by (simp add: true_cols_Cons tc_butlast)
qed

lemma nonzero_map_rows:
  assumes "\<And>r. r \<in> set m \<Longrightarrow> true_cols (f r) = map g (true_cols r)"
  shows "nonzero (map f m) = map (\<lambda>p. (fst p, g (snd p))) (nonzero m)"
  using assms
proof (induction m rule: rev_induct)
  case Nil show ?case by simp
next
  case (snoc r m)
  then show ?case by (simp add: nonzero_snoc comp_def)
qed

lemma nonzero_move_left:
  "list_all (\<lambda>r. r = [] \<or> \<not> hd r) X \<Longrightarrow>
     nonzero (move_left X) = map (\<lambda>p. (fst p, snd p - 1)) (nonzero X)"
  unfolding move_left_def
  by (rule nonzero_map_rows, rule tc_move_left_row) (simp add: list_all_iff)

lemma nonzero_move_right:
  "list_all (\<lambda>r. r = [] \<or> \<not> last r) X \<Longrightarrow>
     nonzero (move_right X) = map (\<lambda>p. (fst p, Suc (snd p))) (nonzero X)"
  unfolding move_right_def
  by (rule nonzero_map_rows, rule tc_move_right_row) (simp add: list_all_iff)

lemma nonzero_move_top:
  "X = [] \<or> true_cols (hd X) = [] \<Longrightarrow>
     nonzero (move_top X) = map (\<lambda>p. (fst p - 1, snd p)) (nonzero X)"
  by (cases X) (auto simp: move_top_def nonzero_Cons nonzero_snoc comp_def)

lemma nonzero_move_bottom:
  "X = [] \<or> true_cols (last X) = [] \<Longrightarrow>
     nonzero (move_bottom X) = map (\<lambda>p. (Suc (fst p), snd p)) (nonzero X)"
proof (cases "X = []")
  case True then show ?thesis by (simp add: move_bottom_def)
next
  case False
  assume a: "X = [] \<or> true_cols (last X) = []"
  have "nonzero X = nonzero (butlast X @ [last X])" using False by simp
  also have "\<dots> = nonzero (butlast X)" using a False by (simp only: nonzero_snoc) simp
  finally have e: "nonzero X = nonzero (butlast X)" .
  show ?thesis using False by (simp add: move_bottom_def nonzero_Cons e)
qed

lemma ncols_move_right [simp]: "ncols (move_right X) = ncols X"
  by (cases X) (auto simp: ncols_def move_right_def)

lemma move_bottom_right_eq: "move_bottom_right X = move_bottom (move_right X)"
proof (cases "X = []")
  case True then show ?thesis
    by (simp add: move_bottom_right_def move_bottom_def move_right_def ncols_def)
next
  case False
  have b: "butlast (replicate (Suc n) False) = replicate n False" for n
    by (induction n) simp_all
  have "move_bottom (move_right X)
      = replicate (ncols X) False # butlast (move_right X)"
    using False ncols_move_right[of X] by (simp add: move_bottom_def del: ncols_move_right) (simp add: move_right_def)
  moreover have "move_bottom_right X
      = map butlast (replicate (Suc (ncols X)) False # butlast (map ((#) False) X))"
    using False by (simp add: move_bottom_right_def)
  moreover have "map butlast (butlast (map ((#) False) X)) = butlast (move_right X)"
    by (simp only: map_butlast move_right_def map_map comp_def)
  ultimately show ?thesis by (simp only: list.map b)
qed

lemma rect_row: "rect H W m \<Longrightarrow> i < H \<Longrightarrow> length (m ! i) = W"
  by (simp add: rect_def list_all_length)

lemma rect_length: "rect H W m \<Longrightarrow> length m = H"
  by (simp add: rect_def)

lemma rect_ncols: "rect H W m \<Longrightarrow> 0 < H \<Longrightarrow> ncols m = W"
  by (cases m) (auto simp: rect_def ncols_def)

lemma rectI: "length m = H \<Longrightarrow> (\<And>i. i < H \<Longrightarrow> length (m ! i) = W) \<Longrightarrow> rect H W m"
  by (simp add: rect_def list_all_length)

lemma rect_move_left: "rect H W m \<Longrightarrow> rect H W (move_left m)"
  by (auto simp: rect_def move_left_def list_all_iff)

lemma rect_move_right: "rect H W m \<Longrightarrow> rect H W (move_right m)"
  by (auto simp: rect_def move_right_def list_all_iff)

lemma rect_move_top: "rect H W m \<Longrightarrow> rect H W (move_top m)"
proof (cases m)
  case Nil
  assume "rect H W m" then show ?thesis using Nil by (simp add: rect_def move_top_def ncols_def)
next
  case (Cons r rs)
  assume "rect H W m" then show ?thesis using Cons by (auto simp: rect_def move_top_def ncols_def)
qed

lemma rect_move_bottom: "rect H W m \<Longrightarrow> rect H W (move_bottom m)"
proof (cases m)
  case Nil
  assume "rect H W m" then show ?thesis using Nil by (simp add: rect_def move_bottom_def ncols_def)
next
  case (Cons r rs)
  assume r: "rect H W m"
  then have "list_all (\<lambda>r. length r = W) (butlast m)"
    by (auto simp: rect_def list_all_iff dest: in_set_butlastD)
  then show ?thesis using Cons r by (auto simp: rect_def move_bottom_def ncols_def)
qed

lemma rect_logical_and: "rect H W a \<Longrightarrow> rect H W b \<Longrightarrow> rect H W (logical_and a b)"
  by (rule rectI) (auto simp: logical_and_def rect_def list_all_length)

lemma logical_and_nth:
  "rect H W a \<Longrightarrow> rect H W b \<Longrightarrow> i < H \<Longrightarrow> j < W \<Longrightarrow>
     logical_and a b ! i ! j = (a ! i ! j \<and> b ! i ! j)"
  by (simp add: logical_and_def rect_def list_all_length)

lemma move_left_nth:
  "rect H W m \<Longrightarrow> i < H \<Longrightarrow> j < W \<Longrightarrow> move_left m ! i ! j = (Suc j < W \<and> m ! i ! Suc j)"
  by (auto simp: move_left_def rect_def list_all_length nth_tl nth_append)

lemma move_right_nth:
  "rect H W m \<Longrightarrow> i < H \<Longrightarrow> j < W \<Longrightarrow> move_right m ! i ! j = (0 < j \<and> m ! i ! (j - 1))"
  by (auto simp: move_right_def rect_def list_all_length nth_butlast nth_Cons' simp del: butlast.simps)

lemma move_top_nth:
  "rect H W m \<Longrightarrow> i < H \<Longrightarrow> j < W \<Longrightarrow> move_top m ! i ! j = (Suc i < H \<and> m ! Suc i ! j)"
proof -
  assume a: "rect H W m" "i < H" "j < W"
  then have n: "ncols m = W" by (simp add: rect_ncols)
  have "move_top m ! i = (m @ [replicate W False]) ! Suc i"
    using a n by (simp add: move_top_def nth_tl rect_def)
  then show ?thesis using a by (auto simp: nth_append rect_def less_Suc_eq_le dest: le_antisym)
qed

lemma move_bottom_nth:
  "rect H W m \<Longrightarrow> i < H \<Longrightarrow> j < W \<Longrightarrow> move_bottom m ! i ! j = (0 < i \<and> m ! (i - 1) ! j)"
proof -
  assume a: "rect H W m" "i < H" "j < W"
  then have n: "ncols m = W" by (simp add: rect_ncols)
  have "move_bottom m ! i = (replicate W False # m) ! i"
    using a n by (simp add: move_bottom_def nth_butlast rect_def del: butlast.simps)
  then show ?thesis using a by (auto simp: nth_Cons')
qed

lemma move_top_left_eq: "move_top_left X = move_top (move_left X)"
proof -
  have n: "ncols (move_left X) = ncols X"
    by (cases X) (auto simp: ncols_def move_left_def)
  have "map tl (tl ys) = tl (map tl ys)" for ys :: "bool list list"
    by (cases ys) simp_all
  then show ?thesis
    by (simp add: move_top_left_def move_top_def n) (simp add: move_left_def comp_def)
qed

section \<open>The pixel index\<close>

lemma length_set_cell [simp]: "length (set_cell g p v) = length g"
  by (simp add: set_cell_def)

lemma length_set_cell_row [simp]: "length (set_cell g p v ! i) = length (g ! i)"
  by (cases "fst p < length g") (auto simp: set_cell_def nth_list_update list_update_beyond)

lemma cell_set_cell_other: "q \<noteq> p \<Longrightarrow> cell (set_cell g p v) q = cell g q"
  by (cases "fst p < length g")
     (auto simp: set_cell_def cell_def nth_list_update prod_eq_iff list_update_beyond)

lemma cell_set_cell_same:
  "fst p < length g \<Longrightarrow> snd p < length (g ! fst p) \<Longrightarrow> cell (set_cell g p v) p = v"
  by (simp add: set_cell_def cell_def)

lemma foldl_set_cell_other:
  "q \<notin> fst ` set pvs \<Longrightarrow> cell (foldl (\<lambda>g (p, v). set_cell g p v) g pvs) q = cell g q"
proof (induction pvs arbitrary: g)
  case Nil show ?case by simp
next
  case (Cons a pvs)
  then show ?case by (cases a) (auto simp: cell_set_cell_other)
qed

lemma foldl_set_cell_hit:
  "distinct (map fst pvs) \<Longrightarrow> (p, v) \<in> set pvs \<Longrightarrow> fst p < length g \<Longrightarrow>
   snd p < length (g ! fst p) \<Longrightarrow> cell (foldl (\<lambda>g (p, v). set_cell g p v) g pvs) p = v"
proof (induction pvs arbitrary: g)
  case Nil then show ?case by simp
next
  case (Cons a pvs)
  obtain p0 v0 where a: "a = (p0, v0)" by (cases a)
  show ?case
  proof (cases "p = p0")
    case True
    have "p \<notin> fst ` set pvs" using Cons.prems(1) a True by auto
    moreover from this have "v = v0" using Cons.prems(2) a True by (auto simp: image_iff)
    ultimately show ?thesis using a True Cons.prems(3,4)
      by (simp add: foldl_set_cell_other cell_set_cell_same)
  next
    case False
    then have "(p, v) \<in> set pvs" using Cons.prems(2) a by auto
    then show ?thesis using Cons.IH[of "set_cell g p0 v0"] Cons.prems a by simp
  qed
qed

lemma pixel_index_nth:
  assumes "k < mask_sum m"
  shows "cell (pixel_index m) (nonzero m ! k) = k"
proof -
  let ?ps = "nonzero m" and ?N = "mask_sum m"
  have len: "length ?ps = ?N" by (rule length_nonzero)
  have mem: "?ps ! k \<in> set ?ps" using assms len by simp
  have d: "distinct (map fst (zip ?ps [0..<?N]))" using len by simp
  have "(?ps ! k, k) \<in> set (zip ?ps [0..<?N])"
    using assms len by (auto simp: in_set_zip intro!: exI[of _ k])
  moreover have "fst (?ps ! k) < length (zeros_like m)"
    using mem by (simp add: set_nonzero zeros_like_def)
  moreover have "snd (?ps ! k) < length (zeros_like m ! fst (?ps ! k))"
    using mem by (simp add: set_nonzero zeros_like_def)
  ultimately show ?thesis
    unfolding pixel_index_def put_mask_def using d by (rule foldl_set_cell_hit[rotated])
qed

lemma valid_index:
  assumes "p \<in> set (nonzero m)"
  shows "cell (pixel_index m) p < mask_sum m \<and> nonzero m ! cell (pixel_index m) p = p"
proof -
  obtain k where "k < length (nonzero m)" "nonzero m ! k = p"
    using assms by (auto simp: in_set_conv_nth)
  then show ?thesis using pixel_index_nth[of k m] by (simp add: length_nonzero)
qed

lemma pixel_index_inj:
  "p \<in> set (nonzero m) \<Longrightarrow> q \<in> set (nonzero m) \<Longrightarrow>
   cell (pixel_index m) p = cell (pixel_index m) q \<Longrightarrow> p = q"
  using valid_index[of p m] valid_index[of q m] by metis

lemma take_mask_index:
  "p \<in> set (nonzero m) \<Longrightarrow> take_mask g m ! cell (pixel_index m) p = cell g p"
  using valid_index[of p m] by (simp add: take_mask_def length_nonzero)

section \<open>Rows of the difference operators\<close>

lemma filter_eq_distinct:
  "distinct xs \<Longrightarrow> filter (\<lambda>x. x = q) xs = (if q \<in> set xs then [q] else [])"
  by (induction xs) auto

lemma filter_index_eq:
  assumes "distinct ps" "set ps \<subseteq> set (nonzero m)" "q \<in> set (nonzero m)"
  shows "filter (\<lambda>p. cell (pixel_index m) p = cell (pixel_index m) q) ps
         = (if q \<in> set ps then [q] else [])"
proof -
  have "filter (\<lambda>p. cell (pixel_index m) p = cell (pixel_index m) q) ps = filter (\<lambda>p. p = q) ps"
  proof (rule filter_cong)
    fix p assume "p \<in> set ps"
    then have "p \<in> set (nonzero m)" using assms(2) by blast
    then show "(cell (pixel_index m) p = cell (pixel_index m) q) = (p = q)"
      using pixel_index_inj[of p m q] assms(3) by blast
  qed simp
  then show ?thesis using assms(1) by (simp add: filter_eq_distinct)
qed

lemma coo_two_blocks:
  "entries (div_scalar (coo_matrix (data_term (length ps)) (tile2 (map a ps))
              (map b ps @ map c ps) sh) s)
   = map (\<lambda>p. (a p, b p, - 1 / s)) ps @ map (\<lambda>p. (a p, c p, 1 / s)) ps"
  by (simp add: div_scalar_def coo_matrix_def data_term_def tile2_def zip_replicate2
      zip_map_map zip_same_conv_map comp_def)

lemma operator_rows:
  assumes "distinct ps" "set ps \<subseteq> set (nonzero m)" "q \<in> set (nonzero m)"
  shows "row_entries (div_scalar (coo_matrix (data_term (length ps))
            (tile2 (map (cell (pixel_index m)) ps))
            (map (cell (pixel_index m)) (map f ps) @ map (cell (pixel_index m)) (map g ps)) sh) s)
          (cell (pixel_index m) q)
       = (if q \<in> set ps
          then [(cell (pixel_index m) (f q), - 1 / s), (cell (pixel_index m) (g q), 1 / s)]
          else [])"
proof -
  let ?idx = "cell (pixel_index m)"
  have e: "entries (div_scalar (coo_matrix (data_term (length ps)) (tile2 (map ?idx ps))
            (map ?idx (map f ps) @ map ?idx (map g ps)) sh) s)
        = map (\<lambda>p. (?idx p, ?idx (f p), - 1 / s)) ps @ map (\<lambda>p. (?idx p, ?idx (g p), 1 / s)) ps"
    using coo_two_blocks[of ps ?idx "\<lambda>p. ?idx (f p)" "\<lambda>p. ?idx (g p)" sh s]
    by (simp add: comp_def)
  show ?thesis
    unfolding row_entries_def e
    by (simp add: filter_map comp_def filter_index_eq[OF assms])
qed

lemma nonzero_rect:
  "rect H W X \<Longrightarrow> p \<in> set (nonzero X) \<longleftrightarrow> fst p < H \<and> snd p < W \<and> X ! fst p ! snd p"
  by (auto simp: set_nonzero rect_def list_all_length)

lemma first_col_clear:
  assumes "rect H W X" "\<And>i. i < H \<Longrightarrow> 0 < W \<Longrightarrow> \<not> X ! i ! 0"
  shows "list_all (\<lambda>r. r = [] \<or> \<not> hd r) X"
  unfolding list_all_length
proof (intro allI impI)
  fix i assume "i < length X"
  then have i: "i < H" and l: "length (X ! i) = W" using assms(1) by (auto simp: rect_def list_all_length)
  show "X ! i = [] \<or> \<not> hd (X ! i)"
  proof (cases "X ! i = []")
    case False
    then have "0 < W" using l by auto
    then show ?thesis using assms(2)[OF i] False by (simp add: hd_conv_nth)
  qed simp
qed

lemma last_col_clear:
  assumes "rect H W X" "\<And>i. i < H \<Longrightarrow> 0 < W \<Longrightarrow> \<not> X ! i ! (W - 1)"
  shows "list_all (\<lambda>r. r = [] \<or> \<not> last r) X"
  unfolding list_all_length
proof (intro allI impI)
  fix i assume "i < length X"
  then have i: "i < H" and l: "length (X ! i) = W" using assms(1) by (auto simp: rect_def list_all_length)
  show "X ! i = [] \<or> \<not> last (X ! i)"
  proof (cases "X ! i = []")
    case False
    then have "0 < W" using l by auto
    then show ?thesis using assms(2)[OF i] False l by (simp add: last_conv_nth)
  qed simp
qed

lemma true_cols_empty: "(\<And>j. j < length r \<Longrightarrow> \<not> r ! j) \<Longrightarrow> true_cols r = []"
  by (simp add: true_cols_def filter_empty_conv)

lemma first_row_clear:
  assumes "rect H W X" "\<And>j. 0 < H \<Longrightarrow> j < W \<Longrightarrow> \<not> X ! 0 ! j"
  shows "X = [] \<or> true_cols (hd X) = []"
proof (cases "X = []")
  case False
  then have h: "0 < H" using assms(1) by (auto simp: rect_def)
  then have "length (X ! 0) = W" using assms(1) by (rule rect_row[rotated])
  then have "true_cols (X ! 0) = []" using assms(2)[OF h] by (intro true_cols_empty) simp
  then show ?thesis using False by (simp add: hd_conv_nth)
qed simp

lemma last_row_clear:
  assumes "rect H W X" "\<And>j. 0 < H \<Longrightarrow> j < W \<Longrightarrow> \<not> X ! (H - 1) ! j"
  shows "X = [] \<or> true_cols (last X) = []"
proof (cases "X = []")
  case False
  then have h: "0 < H" and l: "length X = H" using assms(1) by (auto simp: rect_def)
  then have "length (X ! (H - 1)) = W" using assms(1) by (intro rect_row) auto
  then have "true_cols (X ! (H - 1)) = []" using assms(2)[OF h] by (intro true_cols_empty) simp
  then show ?thesis using False l by (simp add: last_conv_nth)
qed simp

lemma rect_has_left: "rect H W m \<Longrightarrow> rect H W (has_left_mask m)"
  by (simp add: has_left_mask_def rect_logical_and rect_move_right)
lemma rect_has_right: "rect H W m \<Longrightarrow> rect H W (has_right_mask m)"
  by (simp add: has_right_mask_def rect_logical_and rect_move_left)
lemma rect_has_top: "rect H W m \<Longrightarrow> rect H W (has_top_mask m)"
  by (simp add: has_top_mask_def rect_logical_and rect_move_bottom)
lemma rect_has_bottom: "rect H W m \<Longrightarrow> rect H W (has_bottom_mask m)"
  by (simp add: has_bottom_mask_def rect_logical_and rect_move_top)

lemma has_left_nth: "rect H W m \<Longrightarrow> i < H \<Longrightarrow> j < W \<Longrightarrow>
    has_left_mask m ! i ! j = (0 < j \<and> m ! i ! (j - 1) \<and> m ! i ! j)"
  by (simp add: has_left_mask_def logical_and_nth[of H W] rect_move_right move_right_nth[of H W])
lemma has_right_nth: "rect H W m \<Longrightarrow> i < H \<Longrightarrow> j < W \<Longrightarrow>
    has_right_mask m ! i ! j = (Suc j < W \<and> m ! i ! Suc j \<and> m ! i ! j)"
  by (simp add: has_right_mask_def logical_and_nth[of H W] rect_move_left move_left_nth[of H W])
lemma has_top_nth: "rect H W m \<Longrightarrow> i < H \<Longrightarrow> j < W \<Longrightarrow>
    has_top_mask m ! i ! j = (0 < i \<and> m ! (i - 1) ! j \<and> m ! i ! j)"
  by (simp add: has_top_mask_def logical_and_nth[of H W] rect_move_bottom move_bottom_nth[of H W])
lemma has_bottom_nth: "rect H W m \<Longrightarrow> i < H \<Longrightarrow> j < W \<Longrightarrow>
    has_bottom_mask m ! i ! j = (Suc i < H \<and> m ! Suc i ! j \<and> m ! i ! j)"
  by (simp add: has_bottom_mask_def logical_and_nth[of H W] rect_move_top move_top_nth[of H W])

lemma nonzero_has_left: "rect H W m \<Longrightarrow> p \<in> set (nonzero (has_left_mask m)) \<longleftrightarrow>
    fst p < H \<and> snd p < W \<and> 0 < snd p \<and> m ! fst p ! (snd p - 1) \<and> m ! fst p ! snd p"
  using nonzero_rect[OF rect_has_left, of H W m p] has_left_nth[of H W m "fst p" "snd p"] by auto
lemma nonzero_has_right: "rect H W m \<Longrightarrow> p \<in> set (nonzero (has_right_mask m)) \<longleftrightarrow>
    fst p < H \<and> Suc (snd p) < W \<and> m ! fst p ! Suc (snd p) \<and> m ! fst p ! snd p"
  using nonzero_rect[OF rect_has_right, of H W m p] has_right_nth[of H W m "fst p" "snd p"] by auto
lemma nonzero_has_top: "rect H W m \<Longrightarrow> p \<in> set (nonzero (has_top_mask m)) \<longleftrightarrow>
    fst p < H \<and> snd p < W \<and> 0 < fst p \<and> m ! (fst p - 1) ! snd p \<and> m ! fst p ! snd p"
  using nonzero_rect[OF rect_has_top, of H W m p] has_top_nth[of H W m "fst p" "snd p"] by auto
lemma nonzero_has_bottom: "rect H W m \<Longrightarrow> p \<in> set (nonzero (has_bottom_mask m)) \<longleftrightarrow>
    Suc (fst p) < H \<and> snd p < W \<and> m ! Suc (fst p) ! snd p \<and> m ! fst p ! snd p"
  using nonzero_rect[OF rect_has_bottom, of H W m p] has_bottom_nth[of H W m "fst p" "snd p"] by auto

lemma shift_has_left: "rect H W m \<Longrightarrow>
   nonzero (move_left (has_left_mask m)) = map (\<lambda>p. (fst p, snd p - 1)) (nonzero (has_left_mask m))"
  by (rule nonzero_move_left, rule first_col_clear[of H W]) (simp_all add: rect_has_left has_left_nth)
lemma shift_has_right: "rect H W m \<Longrightarrow>
   nonzero (move_right (has_right_mask m)) = map (\<lambda>p. (fst p, Suc (snd p))) (nonzero (has_right_mask m))"
  by (rule nonzero_move_right, rule last_col_clear[of H W]) (simp_all add: rect_has_right has_right_nth)
lemma shift_has_top: "rect H W m \<Longrightarrow>
   nonzero (move_top (has_top_mask m)) = map (\<lambda>p. (fst p - 1, snd p)) (nonzero (has_top_mask m))"
  by (rule nonzero_move_top, rule first_row_clear[of H W]) (simp_all add: rect_has_top has_top_nth)
lemma shift_has_bottom: "rect H W m \<Longrightarrow>
   nonzero (move_bottom (has_bottom_mask m)) = map (\<lambda>p. (Suc (fst p), snd p)) (nonzero (has_bottom_mask m))"
  by (rule nonzero_move_bottom, rule last_row_clear[of H W]) (simp_all add: rect_has_bottom has_bottom_nth)

lemma has_left_subset: "rect H W m \<Longrightarrow> set (nonzero (has_left_mask m)) \<subseteq> set (nonzero m)"
  by (auto simp: nonzero_has_left nonzero_rect)
lemma has_right_subset: "rect H W m \<Longrightarrow> set (nonzero (has_right_mask m)) \<subseteq> set (nonzero m)"
  by (auto simp: nonzero_has_right nonzero_rect)
lemma has_top_subset: "rect H W m \<Longrightarrow> set (nonzero (has_top_mask m)) \<subseteq> set (nonzero m)"
  by (auto simp: nonzero_has_top nonzero_rect)
lemma has_bottom_subset: "rect H W m \<Longrightarrow> set (nonzero (has_bottom_mask m)) \<subseteq> set (nonzero m)"
  by (auto simp: nonzero_has_bottom nonzero_rect)

lemma D_horizontal_neg_rows:
  assumes "rect H W m" "q \<in> set (nonzero m)"
  shows "row_entries (div_scalar (D_horizontal_neg m) s) (cell (pixel_index m) q)
       = (if q \<in> set (nonzero (has_left_mask m))
          then [(cell (pixel_index m) (fst q, snd q - 1), - 1 / s), (cell (pixel_index m) q, 1 / s)]
          else [])"
proof -
  let ?ps = "nonzero (has_left_mask m)"
  have d: "D_horizontal_neg m = coo_matrix (data_term (length ?ps)) (tile2 (map (cell (pixel_index m)) ?ps))
      (map (cell (pixel_index m)) (map (\<lambda>p. (fst p, snd p - 1)) ?ps) @ map (cell (pixel_index m)) (map (\<lambda>p. p) ?ps))
      (mask_sum m, mask_sum m)"
    by (simp add: D_horizontal_neg_def Let_def take_mask_def shift_has_left[OF assms(1)] length_nonzero)
  show ?thesis unfolding d
    by (rule operator_rows[OF distinct_nonzero has_left_subset[OF assms(1)] assms(2)])
qed

lemma D_horizontal_pos_rows:
  assumes "rect H W m" "q \<in> set (nonzero m)"
  shows "row_entries (div_scalar (D_horizontal_pos m) s) (cell (pixel_index m) q)
       = (if q \<in> set (nonzero (has_right_mask m))
          then [(cell (pixel_index m) q, - 1 / s), (cell (pixel_index m) (fst q, Suc (snd q)), 1 / s)]
          else [])"
proof -
  let ?ps = "nonzero (has_right_mask m)"
  have d: "D_horizontal_pos m = coo_matrix (data_term (length ?ps)) (tile2 (map (cell (pixel_index m)) ?ps))
      (map (cell (pixel_index m)) (map (\<lambda>p. p) ?ps) @ map (cell (pixel_index m)) (map (\<lambda>p. (fst p, Suc (snd p))) ?ps))
      (mask_sum m, mask_sum m)"
    by (simp add: D_horizontal_pos_def Let_def take_mask_def shift_has_right[OF assms(1)] length_nonzero)
  show ?thesis unfolding d
    by (rule operator_rows[OF distinct_nonzero has_right_subset[OF assms(1)] assms(2)])
qed

lemma D_vertical_pos_rows:
  assumes "rect H W m" "q \<in> set (nonzero m)"
  shows "row_entries (div_scalar (D_vertical_pos m) s) (cell (pixel_index m) q)
       = (if q \<in> set (nonzero (has_top_mask m))
          then [(cell (pixel_index m) q, - 1 / s), (cell (pixel_index m) (fst q - 1, snd q), 1 / s)]
          else [])"
proof -
  let ?ps = "nonzero (has_top_mask m)"
  have d: "D_vertical_pos m = coo_matrix (data_term (length ?ps)) (tile2 (map (cell (pixel_index m)) ?ps))
      (map (cell (pixel_index m)) (map (\<lambda>p. p) ?ps) @ map (cell (pixel_index m)) (map (\<lambda>p. (fst p - 1, snd p)) ?ps))
      (mask_sum m, mask_sum m)"
    by (simp add: D_vertical_pos_def Let_def take_mask_def shift_has_top[OF assms(1)] length_nonzero)
  show ?thesis unfolding d
    by (rule operator_rows[OF distinct_nonzero has_top_subset[OF assms(1)] assms(2)])
qed

lemma D_vertical_neg_rows:
  assumes "rect H W m" "q \<in> set (nonzero m)"
  shows "row_entries (div_scalar (D_vertical_neg m) s) (cell (pixel_index m) q)
       = (if q \<in> set (nonzero (has_bottom_mask m))
          then [(cell (pixel_index m) (Suc (fst q), snd q), - 1 / s), (cell (pixel_index m) q, 1 / s)]
          else [])"
proof -
  let ?ps = "nonzero (has_bottom_mask m)"
  have d: "D_vertical_neg m = coo_matrix (data_term (length ?ps)) (tile2 (map (cell (pixel_index m)) ?ps))
      (map (cell (pixel_index m)) (map (\<lambda>p. (Suc (fst p), snd p)) ?ps) @ map (cell (pixel_index m)) (map (\<lambda>p. p) ?ps))
      (mask_sum m, mask_sum m)"
    by (simp add: D_vertical_neg_def Let_def take_mask_def shift_has_bottom[OF assms(1)] length_nonzero)
  show ?thesis unfolding d
    by (rule operator_rows[OF distinct_nonzero has_bottom_subset[OF assms(1)] assms(2)])
qed

lemma valid_pixel: "rect H W msk \<Longrightarrow> i < H \<Longrightarrow> j < W \<Longrightarrow> msk ! i ! j \<Longrightarrow> (i, j) \<in> set (nonzero msk)"
  by (simp add: nonzero_rect)

lemma cell_pair [simp]: "cell g (i, j) = g ! i ! j"
  by (simp add: cell_def)

lemma shape_D [simp]:
  "shape (div_scalar (D_horizontal_pos msk) s) = (mask_sum msk, mask_sum msk)"
  "shape (div_scalar (D_horizontal_neg msk) s) = (mask_sum msk, mask_sum msk)"
  "shape (div_scalar (D_vertical_pos msk) s) = (mask_sum msk, mask_sum msk)"
  "shape (div_scalar (D_vertical_neg msk) s) = (mask_sum msk, mask_sum msk)"
  by (simp_all add: div_scalar_def D_horizontal_pos_def D_horizontal_neg_def D_vertical_pos_def
      D_vertical_neg_def coo_matrix_def Let_def)

lemma spmv_nth:
  "r < fst (shape D) \<Longrightarrow> spmv D z ! r = sum_list (map (\<lambda>(c, v). v * z ! c) (row_entries D r))"
  by (simp add: spmv_def)

lemma rows_at_pixel:
  assumes "rect H W msk" "i < H" "j < W" "msk ! i ! j"
  shows "pixel_index msk ! i ! j < mask_sum msk"
    and "row_entries (div_scalar (D_horizontal_pos msk) s) (pixel_index msk ! i ! j) =
      (if Suc j < W \<and> msk ! i ! Suc j
       then [(pixel_index msk ! i ! j, - 1 / s), (pixel_index msk ! i ! Suc j, 1 / s)] else [])"
    and "row_entries (div_scalar (D_horizontal_neg msk) s) (pixel_index msk ! i ! j) =
      (if 0 < j \<and> msk ! i ! (j - 1)
       then [(pixel_index msk ! i ! (j - 1), - 1 / s), (pixel_index msk ! i ! j, 1 / s)] else [])"
    and "row_entries (div_scalar (D_vertical_pos msk) s) (pixel_index msk ! i ! j) =
      (if 0 < i \<and> msk ! (i - 1) ! j
       then [(pixel_index msk ! i ! j, - 1 / s), (pixel_index msk ! (i - 1) ! j, 1 / s)] else [])"
    and "row_entries (div_scalar (D_vertical_neg msk) s) (pixel_index msk ! i ! j) =
      (if Suc i < H \<and> msk ! Suc i ! j
       then [(pixel_index msk ! Suc i ! j, - 1 / s), (pixel_index msk ! i ! j, 1 / s)] else [])"
proof -
  have q: "(i, j) \<in> set (nonzero msk)" using assms by (rule valid_pixel)
  show "pixel_index msk ! i ! j < mask_sum msk" using valid_index[OF q] by simp
  show "row_entries (div_scalar (D_horizontal_pos msk) s) (pixel_index msk ! i ! j) =
      (if Suc j < W \<and> msk ! i ! Suc j
       then [(pixel_index msk ! i ! j, - 1 / s), (pixel_index msk ! i ! Suc j, 1 / s)] else [])"
    using D_horizontal_pos_rows[OF assms(1) q, of s] assms
    by (simp add: nonzero_has_right[OF assms(1)])
  show "row_entries (div_scalar (D_horizontal_neg msk) s) (pixel_index msk ! i ! j) =
      (if 0 < j \<and> msk ! i ! (j - 1)
       then [(pixel_index msk ! i ! (j - 1), - 1 / s), (pixel_index msk ! i ! j, 1 / s)] else [])"
    using D_horizontal_neg_rows[OF assms(1) q, of s] assms
    by (simp add: nonzero_has_left[OF assms(1)])
  show "row_entries (div_scalar (D_vertical_pos msk) s) (pixel_index msk ! i ! j) =
      (if 0 < i \<and> msk ! (i - 1) ! j
       then [(pixel_index msk ! i ! j, - 1 / s), (pixel_index msk ! (i - 1) ! j, 1 / s)] else [])"
    using D_vertical_pos_rows[OF assms(1) q, of s] assms
    by (simp add: nonzero_has_top[OF assms(1)])
  show "row_entries (div_scalar (D_vertical_neg msk) s) (pixel_index msk ! i ! j) =
      (if Suc i < H \<and> msk ! Suc i ! j
       then [(pixel_index msk ! Suc i ! j, - 1 / s), (pixel_index msk ! i ! j, 1 / s)] else [])"
    using D_vertical_neg_rows[OF assms(1) q, of s] assms
    by (simp add: nonzero_has_bottom[OF assms(1)])
qed

lemma take_at_pixel:
  "rect H W msk \<Longrightarrow> i < H \<Longrightarrow> j < W \<Longrightarrow> msk ! i ! j \<Longrightarrow>
     take_mask g msk ! (pixel_index msk ! i ! j) = g ! i ! j"
  using take_mask_index[of "(i, j)" msk g] by (simp add: valid_pixel)

lemma differences_at_pixel:
  assumes "rect H W msk" "i < H" "j < W" "msk ! i ! j"
  shows "spmv (div_scalar (D_horizontal_pos msk) s) (take_mask g msk) ! (pixel_index msk ! i ! j) =
      (if Suc j < W \<and> msk ! i ! Suc j then (g ! i ! Suc j - g ! i ! j) / s else 0)"
    and "spmv (div_scalar (D_horizontal_neg msk) s) (take_mask g msk) ! (pixel_index msk ! i ! j) =
      (if 0 < j \<and> msk ! i ! (j - 1) then (g ! i ! j - g ! i ! (j - 1)) / s else 0)"
    and "spmv (div_scalar (D_vertical_pos msk) s) (take_mask g msk) ! (pixel_index msk ! i ! j) =
      (if 0 < i \<and> msk ! (i - 1) ! j then (g ! (i - 1) ! j - g ! i ! j) / s else 0)"
    and "spmv (div_scalar (D_vertical_neg msk) s) (take_mask g msk) ! (pixel_index msk ! i ! j) =
      (if Suc i < H \<and> msk ! Suc i ! j then (g ! i ! j - g ! Suc i ! j) / s else 0)"
proof -
  note r = rows_at_pixel[OF assms]
  note t = take_at_pixel[OF assms(1)]
  show "spmv (div_scalar (D_horizontal_pos msk) s) (take_mask g msk) ! (pixel_index msk ! i ! j) =
      (if Suc j < W \<and> msk ! i ! Suc j then (g ! i ! Suc j - g ! i ! j) / s else 0)"
    using r(1) assms by (simp add: spmv_nth r(2) t diff_divide_distrib)
  show "spmv (div_scalar (D_horizontal_neg msk) s) (take_mask g msk) ! (pixel_index msk ! i ! j) =
      (if 0 < j \<and> msk ! i ! (j - 1) then (g ! i ! j - g ! i ! (j - 1)) / s else 0)"
    using r(1) assms by (simp add: spmv_nth r(3) t diff_divide_distrib)
  show "spmv (div_scalar (D_vertical_pos msk) s) (take_mask g msk) ! (pixel_index msk ! i ! j) =
      (if 0 < i \<and> msk ! (i - 1) ! j then (g ! (i - 1) ! j - g ! i ! j) / s else 0)"
    using r(1) assms by (simp add: spmv_nth r(4) t diff_divide_distrib)
  show "spmv (div_scalar (D_vertical_neg msk) s) (take_mask g msk) ! (pixel_index msk ! i ! j) =
      (if Suc i < H \<and> msk ! Suc i ! j then (g ! i ! j - g ! Suc i ! j) / s else 0)"
    using r(1) assms by (simp add: spmv_nth r(5) t diff_divide_distrib)
qed

lemma rect_full_mask: "rect H W (full_mask H W)"
  by (simp add: rect_def full_mask_def list_all_iff)

lemma full_mask_nth: "i < H \<Longrightarrow> j < W \<Longrightarrow> full_mask H W ! i ! j"
  by (simp add: full_mask_def)

lemma ramp_nth: "i < H \<Longrightarrow> j < W \<Longrightarrow> ramp a b c H W ! i ! j = a * real i + b * real j + c"
  by (simp add: ramp_def)

lemma ramp_differences:
  assumes "i < H" "j < W"
  shows "spmv (div_scalar (D_horizontal_pos (full_mask H W)) s) (take_mask (ramp a b c H W) (full_mask H W))
           ! (pixel_index (full_mask H W) ! i ! j) = (if Suc j < W then b / s else 0)"
    and "spmv (div_scalar (D_horizontal_neg (full_mask H W)) s) (take_mask (ramp a b c H W) (full_mask H W))
           ! (pixel_index (full_mask H W) ! i ! j) = (if 0 < j then b / s else 0)"
    and "spmv (div_scalar (D_vertical_pos (full_mask H W)) s) (take_mask (ramp a b c H W) (full_mask H W))
           ! (pixel_index (full_mask H W) ! i ! j) = (if 0 < i then - a / s else 0)"
    and "spmv (div_scalar (D_vertical_neg (full_mask H W)) s) (take_mask (ramp a b c H W) (full_mask H W))
           ! (pixel_index (full_mask H W) ! i ! j) = (if Suc i < H then - a / s else 0)"
proof -
  note d = differences_at_pixel[OF rect_full_mask assms full_mask_nth[OF assms], of s "ramp a b c H W"]
  show "spmv (div_scalar (D_horizontal_pos (full_mask H W)) s) (take_mask (ramp a b c H W) (full_mask H W))
           ! (pixel_index (full_mask H W) ! i ! j) = (if Suc j < W then b / s else 0)"
    using assms by (simp add: d(1) full_mask_nth ramp_nth algebra_simps)
  show "spmv (div_scalar (D_horizontal_neg (full_mask H W)) s) (take_mask (ramp a b c H W) (full_mask H W))
           ! (pixel_index (full_mask H W) ! i ! j) = (if 0 < j then b / s else 0)"
    using assms by (simp add: d(2) full_mask_nth ramp_nth algebra_simps of_nat_diff)
  show "spmv (div_scalar (D_vertical_pos (full_mask H W)) s) (take_mask (ramp a b c H W) (full_mask H W))
           ! (pixel_index (full_mask H W) ! i ! j) = (if 0 < i then - a / s else 0)"
    using assms by (simp add: d(3) full_mask_nth ramp_nth algebra_simps of_nat_diff)
  show "spmv (div_scalar (D_vertical_neg (full_mask H W)) s) (take_mask (ramp a b c H W) (full_mask H W))
           ! (pixel_index (full_mask H W) ! i ! j) = (if Suc i < H then - a / s else 0)"
    using assms by (simp add: d(4) full_mask_nth ramp_nth algebra_simps)
qed

text \<open>
  Claim C5. For a mask of shape (H, W) and a valid pixel (i, j) with index r, the row r of
  each of the four operators holds either no entry (the pixel has no valid neighbour in
  that direction) or exactly the two entries \<open>-1/step_size\<close> and \<open>1/step_size\<close>:
  the positive operators at (current, forward neighbour), the negative operators at
  (backward neighbour, current). Forward is the next column for the horizontal axis and
  the previous row (upwards) for the vertical axis. On the full mask the operators applied
  to the ramp \<open>a * i + b * j + c\<close> give the one-sided difference over
  \<open>step_size\<close> wherever the neighbour exists: \<open>b / step_size\<close> horizontally,
  \<open>- a / step_size\<close> vertically, the rows growing downwards. The step size is taken
  nonzero, since the division is the division of the real numbers.
\<close>

theorem generate_dx_dy_one_sided:
  assumes "rect H W msk" and "i < H" and "j < W" and "msk ! i ! j" and "step_size \<noteq> 0"
    and "generate_dx_dy msk step_size = (Dhp, Dhn, Dvp, Dvn)"
    and "generate_dx_dy (full_mask H W) step_size = (Fhp, Fhn, Fvp, Fvn)"
    and "r = pixel_index msk ! i ! j"
    and "fr = pixel_index (full_mask H W) ! i ! j"
    and "fz = take_mask (ramp a b c H W) (full_mask H W)"
  shows "r < mask_sum msk
    \<and> row_entries Dhp r =
        (if Suc j < W \<and> msk ! i ! Suc j
         then [(r, - 1 / step_size), (pixel_index msk ! i ! Suc j, 1 / step_size)] else [])
    \<and> row_entries Dhn r =
        (if 0 < j \<and> msk ! i ! (j - 1)
         then [(pixel_index msk ! i ! (j - 1), - 1 / step_size), (r, 1 / step_size)] else [])
    \<and> row_entries Dvp r =
        (if 0 < i \<and> msk ! (i - 1) ! j
         then [(r, - 1 / step_size), (pixel_index msk ! (i - 1) ! j, 1 / step_size)] else [])
    \<and> row_entries Dvn r =
        (if Suc i < H \<and> msk ! Suc i ! j
         then [(pixel_index msk ! Suc i ! j, - 1 / step_size), (r, 1 / step_size)] else [])
    \<and> length (row_entries Dhp r) \<le> 2 \<and> length (row_entries Dhn r) \<le> 2
    \<and> length (row_entries Dvp r) \<le> 2 \<and> length (row_entries Dvn r) \<le> 2
    \<and> spmv Fhp fz ! fr = (if Suc j < W then b / step_size else 0)
    \<and> spmv Fhn fz ! fr = (if 0 < j then b / step_size else 0)
    \<and> spmv Fvp fz ! fr = (if 0 < i then - a / step_size else 0)
    \<and> spmv Fvn fz ! fr = (if Suc i < H then - a / step_size else 0)"
proof -
  have D: "Dhp = div_scalar (D_horizontal_pos msk) step_size"
    "Dhn = div_scalar (D_horizontal_neg msk) step_size"
    "Dvp = div_scalar (D_vertical_pos msk) step_size"
    "Dvn = div_scalar (D_vertical_neg msk) step_size"
    using assms(6) by (simp_all add: generate_dx_dy_def)
  have F: "Fhp = div_scalar (D_horizontal_pos (full_mask H W)) step_size"
    "Fhn = div_scalar (D_horizontal_neg (full_mask H W)) step_size"
    "Fvp = div_scalar (D_vertical_pos (full_mask H W)) step_size"
    "Fvn = div_scalar (D_vertical_neg (full_mask H W)) step_size"
    using assms(7) by (simp_all add: generate_dx_dy_def)
  note rows = rows_at_pixel(1)[OF assms(1-4), folded assms(8)]
    rows_at_pixel(2-5)[OF assms(1-4), of step_size, folded assms(8)]
  note rd = ramp_differences[OF assms(2,3), of step_size a b c, folded assms(9,10)]
  have l: "length (row_entries Dhp r) \<le> 2" "length (row_entries Dhn r) \<le> 2"
    "length (row_entries Dvp r) \<le> 2" "length (row_entries Dvn r) \<le> 2"
    unfolding D rows by simp_all
  show ?thesis
    unfolding D F by (intro conjI rows rd l[unfolded D])
qed

theorem generate_dx_dy_one_sided_witness:
  "rect 2 2 (full_mask 2 2) \<and> (0::nat) < 2 \<and> full_mask 2 2 ! 0 ! 0 \<and> (2::real) \<noteq> 0
   \<and> row_entries (fst (generate_dx_dy (full_mask 2 2) 2)) (pixel_index (full_mask 2 2) ! 0 ! 0)
       = [(pixel_index (full_mask 2 2) ! 0 ! 0, - 1 / 2), (pixel_index (full_mask 2 2) ! 0 ! Suc 0, 1 / 2)]
   \<and> row_entries (fst (snd (generate_dx_dy (full_mask 2 2) 2))) (pixel_index (full_mask 2 2) ! 0 ! 0) = []
   \<and> spmv (fst (generate_dx_dy (full_mask 2 2) 2)) (take_mask (ramp 3 5 1 2 2) (full_mask 2 2))
        ! (pixel_index (full_mask 2 2) ! 0 ! 0) = 5 / 2"
proof -
  have h: "rect 2 2 (full_mask 2 2)" "(0::nat) < 2" "full_mask 2 2 ! 0 ! 0" "(2::real) \<noteq> 0"
    by (simp_all add: rect_full_mask full_mask_nth)
  have g: "generate_dx_dy (full_mask 2 2) 2 =
      (div_scalar (D_horizontal_pos (full_mask 2 2)) 2, div_scalar (D_horizontal_neg (full_mask 2 2)) 2,
       div_scalar (D_vertical_pos (full_mask 2 2)) 2, div_scalar (D_vertical_neg (full_mask 2 2)) 2)"
    by (simp add: generate_dx_dy_def)
  show ?thesis
    using generate_dx_dy_one_sided[OF h(1) h(2) h(2) h(3) h(4) g g refl refl refl, of 3 5 1] h
    by (simp add: g full_mask_nth)
qed

section \<open>The facets\<close>

lemma rect_top_left: "rect H W m \<Longrightarrow> rect H W (facet_top_left_mask m)"
  by (simp add: facet_top_left_mask_def rect_logical_and rect_move_top rect_move_left move_top_left_eq)

lemma top_left_nth: "rect H W m \<Longrightarrow> i < H \<Longrightarrow> j < W \<Longrightarrow>
    facet_top_left_mask m ! i ! j =
      (Suc i < H \<and> Suc j < W \<and> m ! i ! j \<and> m ! Suc i ! j \<and> m ! i ! Suc j \<and> m ! Suc i ! Suc j)"
  by (auto simp add: facet_top_left_mask_def logical_and_nth[of H W] rect_logical_and rect_move_top
      rect_move_left move_top_left_eq move_top_nth[of H W] move_left_nth[of H W])

lemma nonzero_top_left: "rect H W m \<Longrightarrow> p \<in> set (nonzero (facet_top_left_mask m)) \<longleftrightarrow>
    Suc (fst p) < H \<and> Suc (snd p) < W \<and> m ! fst p ! snd p \<and> m ! Suc (fst p) ! snd p
      \<and> m ! fst p ! Suc (snd p) \<and> m ! Suc (fst p) ! Suc (snd p)"
  using nonzero_rect[OF rect_top_left, of H W m p] top_left_nth[of H W m "fst p" "snd p"] by auto

lemma shift_top_right: "rect H W m \<Longrightarrow>
   nonzero (move_right (facet_top_left_mask m))
     = map (\<lambda>p. (fst p, Suc (snd p))) (nonzero (facet_top_left_mask m))"
  by (rule nonzero_move_right, rule last_col_clear[of H W]) (simp_all add: rect_top_left top_left_nth)

lemma shift_bottom_left: "rect H W m \<Longrightarrow>
   nonzero (move_bottom (facet_top_left_mask m))
     = map (\<lambda>p. (Suc (fst p), snd p)) (nonzero (facet_top_left_mask m))"
  by (rule nonzero_move_bottom, rule last_row_clear[of H W]) (simp_all add: rect_top_left top_left_nth)

lemma shift_bottom_right: "rect H W m \<Longrightarrow>
   nonzero (move_bottom_right (facet_top_left_mask m))
     = map (\<lambda>p. (Suc (fst p), Suc (snd p))) (nonzero (facet_top_left_mask m))"
proof -
  assume r: "rect H W m"
  have "nonzero (move_bottom (move_right (facet_top_left_mask m)))
      = map (\<lambda>p. (Suc (fst p), snd p)) (nonzero (move_right (facet_top_left_mask m)))"
    by (rule nonzero_move_bottom, rule last_row_clear[of H W])
       (simp_all add: rect_top_left r rect_move_right move_right_nth[of H W] top_left_nth[of H W])
  then show ?thesis by (simp add: move_bottom_right_eq shift_top_right[OF r] comp_def)
qed

lemma zip4_map:
  "zip (map f xs) (zip (map g xs) (zip (map h xs) (map k xs))) = map (\<lambda>x. (f x, g x, h x, k x)) xs"
  by (induction xs) simp_all

lemma facets_as_blocks:
  assumes "rect H W m"
  shows "construct_facets_from m =
     map (\<lambda>p. [4, pixel_index m ! fst p ! snd p, pixel_index m ! Suc (fst p) ! snd p,
                pixel_index m ! Suc (fst p) ! Suc (snd p), pixel_index m ! fst p ! Suc (snd p)])
       (nonzero (facet_top_left_mask m))"
  by (simp add: construct_facets_from_def Let_def take_mask_def shift_top_right[OF assms]
      shift_bottom_left[OF assms] shift_bottom_right[OF assms] zip4_map comp_def cell_def)

lemma top_left_full:
  "set (nonzero (facet_top_left_mask (full_mask H W))) = {..<H - 1} \<times> {..<W - 1}"
  by (auto simp: nonzero_top_left[OF rect_full_mask] full_mask_nth)

lemma facets_full_count:
  "length (construct_facets_from (full_mask H W)) = (H - 1) * (W - 1)"
proof -
  have "length (nonzero (facet_top_left_mask (full_mask H W)))
      = card (set (nonzero (facet_top_left_mask (full_mask H W))))"
    by (simp add: distinct_card)
  also have "\<dots> = (H - 1) * (W - 1)" by (simp add: top_left_full)
  finally show ?thesis by (simp add: facets_as_blocks[OF rect_full_mask])
qed

text \<open>
  Claim C9. On the full mask of shape (H, W), with H and W positive,
  \<open>construct_facets_from\<close> returns (H - 1) * (W - 1) facets. For every mask of shape
  (H, W) a row is a facet exactly when it is 4 followed by the indices of the corners
  (i, j), (i + 1, j), (i + 1, j + 1), (i, j + 1) of a block of four valid pixels, and
  the four indices of every facet are below the number N of valid pixels.
\<close>

theorem construct_facets_quads:
  assumes "rect H W msk" and "0 < H" and "0 < W"
  shows "int (length (construct_facets_from (full_mask H W))) = (int H - 1) * (int W - 1)
    \<and> (\<forall>f. f \<in> set (construct_facets_from msk) \<longleftrightarrow>
          (\<exists>i j. Suc i < H \<and> Suc j < W
             \<and> msk ! i ! j \<and> msk ! Suc i ! j \<and> msk ! i ! Suc j \<and> msk ! Suc i ! Suc j
             \<and> f = [4, pixel_index msk ! i ! j, pixel_index msk ! Suc i ! j,
                    pixel_index msk ! Suc i ! Suc j, pixel_index msk ! i ! Suc j]))
    \<and> (\<forall>f \<in> set (construct_facets_from msk).
          length f = 5 \<and> f ! 0 = 4 \<and> f ! 1 < mask_sum msk \<and> f ! 2 < mask_sum msk
            \<and> f ! 3 < mask_sum msk \<and> f ! 4 < mask_sum msk)"
proof -
  have "length (construct_facets_from (full_mask H W)) = (H - 1) * (W - 1)"
    by (rule facets_full_count)
  then have c1: "int (length (construct_facets_from (full_mask H W))) = (int H - 1) * (int W - 1)"
    using assms(2,3) by (simp add: of_nat_diff)
  have c2: "f \<in> set (construct_facets_from msk) \<longleftrightarrow>
          (\<exists>i j. Suc i < H \<and> Suc j < W
             \<and> msk ! i ! j \<and> msk ! Suc i ! j \<and> msk ! i ! Suc j \<and> msk ! Suc i ! Suc j
             \<and> f = [4, pixel_index msk ! i ! j, pixel_index msk ! Suc i ! j,
                    pixel_index msk ! Suc i ! Suc j, pixel_index msk ! i ! Suc j])"
    for f
    unfolding facets_as_blocks[OF assms(1)] set_map image_iff
    by (simp add: nonzero_top_left[OF assms(1)] Bex_def)
  have c3: "length f = 5 \<and> f ! 0 = 4 \<and> f ! 1 < mask_sum msk \<and> f ! 2 < mask_sum msk
            \<and> f ! 3 < mask_sum msk \<and> f ! 4 < mask_sum msk"
    if "f \<in> set (construct_facets_from msk)" for f
  proof -
  from that obtain p where p: "p \<in> set (nonzero (facet_top_left_mask msk))"
    and f: "f = [4, pixel_index msk ! fst p ! snd p, pixel_index msk ! Suc (fst p) ! snd p,
                pixel_index msk ! Suc (fst p) ! Suc (snd p), pixel_index msk ! fst p ! Suc (snd p)]"
    unfolding facets_as_blocks[OF assms(1)] by auto
  note b = p[unfolded nonzero_top_left[OF assms(1)]]
  have v: "(fst p, snd p) \<in> set (nonzero msk)" "(Suc (fst p), snd p) \<in> set (nonzero msk)"
    "(Suc (fst p), Suc (snd p)) \<in> set (nonzero msk)" "(fst p, Suc (snd p)) \<in> set (nonzero msk)"
    using b by (simp_all add: nonzero_rect[OF assms(1)])
  show "length f = 5 \<and> f ! 0 = 4 \<and> f ! 1 < mask_sum msk \<and> f ! 2 < mask_sum msk
            \<and> f ! 3 < mask_sum msk \<and> f ! 4 < mask_sum msk"
    using valid_index[OF v(1)] valid_index[OF v(2)] valid_index[OF v(3)] valid_index[OF v(4)]
    by (simp add: f numeral_nat cell_def)
  qed
  show ?thesis using c1 c2 c3 by blast
qed

theorem construct_facets_quads_witness:
  "rect 2 2 (full_mask 2 2) \<and> (0::nat) < 2
   \<and> int (length (construct_facets_from (full_mask 2 2))) = 1
   \<and> list_all (\<lambda>f. f ! 3 < mask_sum (full_mask 2 2)) (construct_facets_from (full_mask 2 2))"
proof -
  have h: "rect 2 2 (full_mask 2 2)" "(0::nat) < 2" by (simp_all add: rect_full_mask)
  note t = construct_facets_quads[OF h(1) h(2) h(2)]
  have a: "int (length (construct_facets_from (full_mask 2 2))) = 1"
    using t[THEN conjunct1] by simp
  have b: "list_all (\<lambda>f. f ! 3 < mask_sum (full_mask 2 2)) (construct_facets_from (full_mask 2 2))"
    unfolding list_all_iff using t[THEN conjunct2, THEN conjunct2] by blast
  show ?thesis using h a b by blast
qed

section \<open>The stacked system\<close>


lemma assemble_normals:
  "s_nx (assemble nm msk K s) = map (channel 1) (take_mask nm msk)"
  "s_ny (assemble nm msk K s) = map (channel 0) (take_mask nm msk)"
  "s_nz (assemble nm msk K s) = map (\<lambda>p. - channel 2 p) (take_mask nm msk)"
  by (simp_all add: assemble_def Let_def case_prod_unfold)

lemma assemble_coefficients:
  "s_Nz_u (assemble nm msk K s) =
     fst (coefficients K msk (s_nx (assemble nm msk K s)) (s_ny (assemble nm msk K s))
        (s_nz (assemble nm msk K s)))"
  "s_Nz_v (assemble nm msk K s) =
     snd (coefficients K msk (s_nx (assemble nm msk K s)) (s_ny (assemble nm msk K s))
        (s_nz (assemble nm msk K s)))"
  by (simp_all add: assemble_def Let_def case_prod_unfold)

lemma length_take_mask [simp]: "length (take_mask g msk) = mask_sum msk"
  by (simp add: take_mask_def length_nonzero)

lemma index_in_range:
  "rect H W msk \<Longrightarrow> i < H \<Longrightarrow> j < W \<Longrightarrow> msk ! i ! j \<Longrightarrow> pixel_index msk ! i ! j < mask_sum msk"
  using valid_index[of "(i, j)" msk] by (simp add: valid_pixel)

text \<open>
  Claim C10. For every valid pixel the camera-coordinate components used by the solver
  are channel 1, channel 0 and minus channel 2 of the input normal map at that pixel.
\<close>

theorem camera_normals:
  assumes "rect H W msk" and "rect H W normal_map" and "i < H" and "j < W" and "msk ! i ! j"
    and "sys = assemble normal_map msk K step_size"
    and "r = pixel_index msk ! i ! j"
  shows "s_nx sys = map (channel 1) (take_mask normal_map msk)
    \<and> s_ny sys = map (channel 0) (take_mask normal_map msk)
    \<and> s_nz sys = map (\<lambda>p. - channel 2 p) (take_mask normal_map msk)
    \<and> r < length (s_nx sys) \<and> r < length (s_ny sys) \<and> r < length (s_nz sys)
    \<and> s_nx sys ! r = channel 1 (normal_map ! i ! j)
    \<and> s_ny sys ! r = channel 0 (normal_map ! i ! j)
    \<and> s_nz sys ! r = - channel 2 (normal_map ! i ! j)"
proof -
  have r: "r < mask_sum msk" unfolding assms(7) using assms(1,3,4,5) by (rule index_in_range)
  have t: "take_mask normal_map msk ! r = normal_map ! i ! j"
    unfolding assms(7) using assms(1,3,4,5) by (rule take_at_pixel)
  show ?thesis unfolding assms(6) using r t by (simp add: assemble_normals)
qed

theorem camera_normals_witness:
  "rect 1 1 [[True]] \<and> rect 1 1 [[(1::real, 2::real, 3::real)]] \<and> (0::nat) < 1 \<and> [[True]] ! 0 ! 0
   \<and> s_nx (assemble [[(1, 2, 3)]] [[True]] None 1) ! (pixel_index [[True]] ! 0 ! 0) = 2
   \<and> s_ny (assemble [[(1, 2, 3)]] [[True]] None 1) ! (pixel_index [[True]] ! 0 ! 0) = 1
   \<and> s_nz (assemble [[(1, 2, 3)]] [[True]] None 1) ! (pixel_index [[True]] ! 0 ! 0) = - 3"
proof -
  have h: "rect 1 1 [[True]]" "rect 1 1 [[(1::real, 2::real, 3::real)]]" "(0::nat) < 1" "[[True]] ! 0 ! 0"
    by (simp_all add: rect_def)
  note t = camera_normals[OF h(1) h(2) h(3) h(3) h(4) refl refl, of None 1]
  have a: "s_nx (assemble [[(1, 2, 3)]] [[True]] None 1) ! (pixel_index [[True]] ! 0 ! 0)
      = channel 1 ([[(1::real, 2::real, 3::real)]] ! 0 ! 0)"
    using t by blast
  have b: "s_ny (assemble [[(1, 2, 3)]] [[True]] None 1) ! (pixel_index [[True]] ! 0 ! 0)
      = channel 0 ([[(1::real, 2::real, 3::real)]] ! 0 ! 0)"
    using t by blast
  have c: "s_nz (assemble [[(1, 2, 3)]] [[True]] None 1) ! (pixel_index [[True]] ! 0 ! 0)
      = - channel 2 ([[(1::real, 2::real, 3::real)]] ! 0 ! 0)"
    using t by blast
  show ?thesis
    unfolding a b c using h by (simp add: channel_def)
qed

lemma meshgrid_cols:
  "i < H \<Longrightarrow> j < W \<Longrightarrow> fst (meshgrid (range_real W) (range_real H)) ! i ! j = real j"
  by (simp add: meshgrid_def range_real_def)

lemma meshgrid_rows_flipped:
  "i < H \<Longrightarrow> j < W \<Longrightarrow> flip0 (snd (meshgrid (range_real W) (range_real H))) ! i ! j = real (H - 1 - i)"
  by (simp add: meshgrid_def range_real_def flip0_def rev_nth rev_map[symmetric])

lemma coefficients_orthographic: "coefficients None msk nx ny nz = (nz, nz)"
  by (simp add: coefficients_def)

lemma coefficients_perspective:
  assumes "rect H W msk" "i < H" "j < W" "msk ! i ! j"
    and "length nx = mask_sum msk" "length ny = mask_sum msk" "length nz = mask_sum msk"
    and "r = pixel_index msk ! i ! j"
  shows "fst (coefficients (Some K) msk nx ny nz) ! r =
      (real (H - 1 - i) - K ! 0 ! 2) * nx ! r + (real j - K ! 1 ! 2) * ny ! r + K ! 0 ! 0 * nz ! r"
    and "snd (coefficients (Some K) msk nx ny nz) ! r =
      (real (H - 1 - i) - K ! 0 ! 2) * nx ! r + (real j - K ! 1 ! 2) * ny ! r + K ! 1 ! 1 * nz ! r"
proof -
  have H: "length msk = H" "ncols msk = W"
    using assms(1,2) by (simp_all add: rect_length rect_ncols)
  have r: "r < mask_sum msk" unfolding assms(8) using assms(1-4) by (rule index_in_range)
  have x: "take_mask (flip0 (snd (meshgrid (range_real W) (range_real H)))) msk ! r = real (H - 1 - i)"
    unfolding assms(8) using assms(2,3)
    by (simp add: take_at_pixel[OF assms(1-4)] meshgrid_rows_flipped)
  have y: "take_mask (fst (meshgrid (range_real W) (range_real H))) msk ! r = real j"
    unfolding assms(8) using assms(2,3)
    by (simp add: take_at_pixel[OF assms(1-4)] meshgrid_cols)
  show "fst (coefficients (Some K) msk nx ny nz) ! r =
      (real (H - 1 - i) - K ! 0 ! 2) * nx ! r + (real j - K ! 1 ! 2) * ny ! r + K ! 0 ! 0 * nz ! r"
    using r assms(5-7) x y
    by (simp add: coefficients_def Let_def case_prod_unfold H vadd_def vmul_def smul_def)
  show "snd (coefficients (Some K) msk nx ny nz) ! r =
      (real (H - 1 - i) - K ! 0 ! 2) * nx ! r + (real j - K ! 1 ! 2) * ny ! r + K ! 1 ! 1 * nz ! r"
    using r assms(5-7) x y
    by (simp add: coefficients_def Let_def case_prod_unfold H vadd_def vmul_def smul_def)
qed

text \<open>
  Claim C6, as the code has it. Without a camera matrix both coefficient vectors are nz.
  With a camera matrix K, at the valid pixel in row i and column j,
  \<open>Nz_u = u * nx + v * ny + fx * nz\<close> and \<open>Nz_v = u * nx + v * ny + fy * nz\<close>
  where u is the flipped row index minus cx, \<open>(H - 1 - i) - K[0, 2]\<close>, and v is the
  column index minus cy, \<open>j - K[1, 2]\<close>: u runs along the vertical axis of the image.
\<close>

theorem coefficient_fields:
  assumes "rect H W msk" and "rect H W normal_map" and "rect 3 3 K"
    and "i < H" and "j < W" and "msk ! i ! j"
    and "so = assemble normal_map msk None step_size"
    and "sp = assemble normal_map msk (Some K) step_size"
    and "r = pixel_index msk ! i ! j"
    and "u = real (H - 1 - i) - K ! 0 ! 2"
    and "v = real j - K ! 1 ! 2"
  shows "s_Nz_u so = s_nz so \<and> s_Nz_v so = s_nz so
    \<and> s_Nz_u sp ! r = u * s_nx sp ! r + v * s_ny sp ! r + K ! 0 ! 0 * s_nz sp ! r
    \<and> s_Nz_v sp ! r = u * s_nx sp ! r + v * s_ny sp ! r + K ! 1 ! 1 * s_nz sp ! r"
proof -
  have o: "s_Nz_u so = s_nz so" "s_Nz_v so = s_nz so"
    unfolding assms(7) by (simp_all add: assemble_coefficients coefficients_orthographic)
  have l: "length (s_nx sp) = mask_sum msk" "length (s_ny sp) = mask_sum msk"
    "length (s_nz sp) = mask_sum msk"
    unfolding assms(8) by (simp_all add: assemble_normals)
  note c = coefficients_perspective[OF assms(1,4,5,6) l assms(9), of K, folded assms(10,11)]
  have p: "s_Nz_u sp ! r = u * s_nx sp ! r + v * s_ny sp ! r + K ! 0 ! 0 * s_nz sp ! r"
    "s_Nz_v sp ! r = u * s_nx sp ! r + v * s_ny sp ! r + K ! 1 ! 1 * s_nz sp ! r"
    using c unfolding assms(8) assemble_coefficients by simp_all
  show ?thesis using o p by blast
qed

theorem coefficient_fields_witness:
  "rect 2 1 [[True], [True]] \<and> rect 2 1 [[(0::real, 1::real, 0::real)], [(0, 1, 0)]]
   \<and> rect 3 3 [[1::real, 0, 0], [0, 1, 0], [0, 0, 1]] \<and> (0::nat) < 2 \<and> (0::nat) < 1
   \<and> [[True], [True]] ! 0 ! 0
   \<and> s_Nz_u (assemble [[(0, 1, 0)], [(0, 1, 0)]] [[True], [True]] None 1)
       = s_nz (assemble [[(0, 1, 0)], [(0, 1, 0)]] [[True], [True]] None 1)
   \<and> s_Nz_u (assemble [[(0, 1, 0)], [(0, 1, 0)]] [[True], [True]]
         (Some [[1, 0, 0], [0, 1, 0], [0, 0, 1]]) 1) ! (pixel_index [[True], [True]] ! 0 ! 0)
       = (real (2 - 1 - 0) - [[1, 0, 0], [0, 1, 0], [0, 0, 1]] ! 0 ! 2)
           * s_nx (assemble [[(0, 1, 0)], [(0, 1, 0)]] [[True], [True]]
               (Some [[1, 0, 0], [0, 1, 0], [0, 0, 1]]) 1) ! (pixel_index [[True], [True]] ! 0 ! 0)
         + (real 0 - [[1, 0, 0], [0, 1, 0], [0, 0, 1]] ! 1 ! 2)
           * s_ny (assemble [[(0, 1, 0)], [(0, 1, 0)]] [[True], [True]]
               (Some [[1, 0, 0], [0, 1, 0], [0, 0, 1]]) 1) ! (pixel_index [[True], [True]] ! 0 ! 0)
         + [[1, 0, 0], [0, 1, 0], [0, 0, 1]] ! 0 ! 0
           * s_nz (assemble [[(0, 1, 0)], [(0, 1, 0)]] [[True], [True]]
               (Some [[1, 0, 0], [0, 1, 0], [0, 0, 1]]) 1) ! (pixel_index [[True], [True]] ! 0 ! 0)"
proof -
  have h: "rect 2 1 [[True], [True]]" "rect 2 1 [[(0::real, 1::real, 0::real)], [(0, 1, 0)]]"
    "rect 3 3 [[1::real, 0, 0], [0, 1, 0], [0, 0, 1]]" "(0::nat) < 2" "(0::nat) < 1"
    "[[True], [True]] ! 0 ! 0"
    by (simp_all add: rect_def)
  note t = coefficient_fields[OF h refl refl refl refl refl, of 1]
  show ?thesis using t h by blast
qed

text \<open>
  The claim as written takes u from the column and v from the flipped row. On a mask of
  one row and two columns, at the pixel in column 1, with nx = 1 and ny = nz = 0 and the
  identity camera matrix, that would give \<open>Nz_u = 1\<close>; the code gives 0.
\<close>

theorem coefficient_fields_counterexample:
  "s_Nz_u (assemble [[(0, 1, 0), (0, 1, 0)]] [[True, True]]
       (Some [[1, 0, 0], [0, 1, 0], [0, 0, 1]]) 1) ! (pixel_index [[True, True]] ! 0 ! 1)
   \<noteq> (real 1 - [[1, 0, 0], [0, 1, 0], [0, 0, 1]] ! 0 ! 2)
         * s_nx (assemble [[(0, 1, 0), (0, 1, 0)]] [[True, True]]
             (Some [[1, 0, 0], [0, 1, 0], [0, 0, 1]]) 1) ! (pixel_index [[True, True]] ! 0 ! 1)
       + (real (1 - 1 - 0) - [[1, 0, 0], [0, 1, 0], [0, 0, 1]] ! 1 ! 2)
         * s_ny (assemble [[(0, 1, 0), (0, 1, 0)]] [[True, True]]
             (Some [[1, 0, 0], [0, 1, 0], [0, 0, 1]]) 1) ! (pixel_index [[True, True]] ! 0 ! 1)
       + [[1, 0, 0], [0, 1, 0], [0, 0, 1]] ! 0 ! 0
         * s_nz (assemble [[(0, 1, 0), (0, 1, 0)]] [[True, True]]
             (Some [[1, 0, 0], [0, 1, 0], [0, 0, 1]]) 1) ! (pixel_index [[True, True]] ! 0 ! 1)"
  by code_simp

lemma two_block_rows:
  assumes "set ps \<subseteq> set (nonzero m)"
    and "e \<in> set (entries (div_scalar (coo_matrix (data_term (length ps))
            (tile2 (map (cell (pixel_index m)) ps)) (map f ps @ map g ps) sh) s))"
  shows "fst e < mask_sum m"
proof -
  from assms(2) obtain p where "p \<in> set ps" "fst e = cell (pixel_index m) p"
    unfolding coo_two_blocks by auto
  then show ?thesis using valid_index[of p m] assms(1) by auto
qed

lemma operator_row_range:
  assumes "rect H W m"
  shows "e \<in> set (entries (div_scalar (D_horizontal_pos m) s)) \<Longrightarrow> fst e < mask_sum m"
    and "e \<in> set (entries (div_scalar (D_horizontal_neg m) s)) \<Longrightarrow> fst e < mask_sum m"
    and "e \<in> set (entries (div_scalar (D_vertical_pos m) s)) \<Longrightarrow> fst e < mask_sum m"
    and "e \<in> set (entries (div_scalar (D_vertical_neg m) s)) \<Longrightarrow> fst e < mask_sum m"
proof -
  show "e \<in> set (entries (div_scalar (D_horizontal_pos m) s)) \<Longrightarrow> fst e < mask_sum m"
    using two_block_rows[OF has_right_subset[OF assms], of e
        "\<lambda>p. cell (pixel_index m) p" "\<lambda>p. cell (pixel_index m) (fst p, Suc (snd p))"
        "(mask_sum m, mask_sum m)" s]
    by (simp add: D_horizontal_pos_def Let_def take_mask_def shift_has_right[OF assms]
        length_nonzero comp_def)
  show "e \<in> set (entries (div_scalar (D_horizontal_neg m) s)) \<Longrightarrow> fst e < mask_sum m"
    using two_block_rows[OF has_left_subset[OF assms], of e
        "\<lambda>p. cell (pixel_index m) (fst p, snd p - 1)" "\<lambda>p. cell (pixel_index m) p"
        "(mask_sum m, mask_sum m)" s]
    by (simp add: D_horizontal_neg_def Let_def take_mask_def shift_has_left[OF assms]
        length_nonzero comp_def)
  show "e \<in> set (entries (div_scalar (D_vertical_pos m) s)) \<Longrightarrow> fst e < mask_sum m"
    using two_block_rows[OF has_top_subset[OF assms], of e
        "\<lambda>p. cell (pixel_index m) p" "\<lambda>p. cell (pixel_index m) (fst p - 1, snd p)"
        "(mask_sum m, mask_sum m)" s]
    by (simp add: D_vertical_pos_def Let_def take_mask_def shift_has_top[OF assms]
        length_nonzero comp_def)
  show "e \<in> set (entries (div_scalar (D_vertical_neg m) s)) \<Longrightarrow> fst e < mask_sum m"
    using two_block_rows[OF has_bottom_subset[OF assms], of e
        "\<lambda>p. cell (pixel_index m) (Suc (fst p), snd p)" "\<lambda>p. cell (pixel_index m) p"
        "(mask_sum m, mask_sum m)" s]
    by (simp add: D_vertical_neg_def Let_def take_mask_def shift_has_bottom[OF assms]
        length_nonzero comp_def)
qed

lemma row_entries_diag_mul:
  "row_entries (diag_mul d D) r = map (\<lambda>(c, v). (c, d ! r * v)) (row_entries D r)"
proof -
  have "map snd (filter (\<lambda>e. fst e = r) (map (\<lambda>(r, c, v). (r, c, d ! r * v)) es))
      = map (\<lambda>(c, v). (c, d ! r * v)) (map snd (filter (\<lambda>e. fst e = r) es))" for es
    by (induction es) auto
  then show ?thesis by (simp add: row_entries_def diag_mul_def)
qed

lemma entries_diag_mul_range:
  assumes "\<And>e. e \<in> set (entries D) \<Longrightarrow> fst e < N" and "e \<in> set (entries (diag_mul d D))"
  shows "fst e < N"
proof -
  from assms(2) obtain e' where e': "e' \<in> set (entries D)"
    and e: "e = (\<lambda>(r, c, v). (r, c, d ! r * v)) e'"
    by (auto simp: diag_mul_def)
  have "fst e = fst e'" unfolding e by (cases e') simp
  then show ?thesis using assms(1)[OF e'] by simp
qed

lemma shape_diag_mul [simp]: "shape (diag_mul d D) = shape D"
  by (simp add: diag_mul_def)

lemma shift_hit:
  "map snd (filter (\<lambda>e. fst e = k + r) (shift_rows k D)) = row_entries D r"
proof -
  have "map snd (filter (\<lambda>e. fst e = k + r) (map (\<lambda>(r, c, v). (k + r, c, v)) es))
      = map snd (filter (\<lambda>e. fst e = r) es)" for es
    by (induction es) auto
  then show ?thesis by (simp add: shift_rows_def row_entries_def)
qed

lemma shift_miss:
  "(\<And>e. e \<in> set (entries D) \<Longrightarrow> k + fst e \<noteq> x) \<Longrightarrow>
     filter (\<lambda>e. fst e = x) (shift_rows k D) = []"
  by (fastforce simp: shift_rows_def filter_empty_conv)

lemma vstack4_rows:
  assumes "shape B1 = (N, c1)" "shape B2 = (N, c2)" "shape B3 = (N, c3)" "shape B4 = (N, c4)"
    and "\<forall>e \<in> set (entries B1). fst e < N" "\<forall>e \<in> set (entries B2). fst e < N"
    and "\<forall>e \<in> set (entries B3). fst e < N" "\<forall>e \<in> set (entries B4). fst e < N"
    and "r < N"
  shows "row_entries (vstack [B1, B2, B3, B4]) r = row_entries B1 r"
    and "row_entries (vstack [B1, B2, B3, B4]) (N + r) = row_entries B2 r"
    and "row_entries (vstack [B1, B2, B3, B4]) (2 * N + r) = row_entries B3 r"
    and "row_entries (vstack [B1, B2, B3, B4]) (3 * N + r) = row_entries B4 r"
    and "shape (vstack [B1, B2, B3, B4]) = (4 * N, c1)"
proof -
  have e: "entries (vstack [B1, B2, B3, B4])
      = shift_rows 0 B1 @ shift_rows N B2 @ shift_rows (2 * N) B3 @ shift_rows (3 * N) B4"
    by (simp add: vstack_def assms(1-4) mult_2 numeral_3_eq_3 add.assoc)
  have m1: "filter (\<lambda>e. fst e = x) (shift_rows 0 B1) = []" if "N \<le> x" for x
    by (rule shift_miss) (use assms(5) that in fastforce)
  have m2: "filter (\<lambda>e. fst e = x) (shift_rows N B2) = []" if "x < N \<or> 2 * N \<le> x" for x
    by (rule shift_miss) (use assms(6) that in fastforce)
  have m3: "filter (\<lambda>e. fst e = x) (shift_rows (2 * N) B3) = []" if "x < 2 * N \<or> 3 * N \<le> x" for x
    by (rule shift_miss) (use assms(7) that in fastforce)
  have m4: "filter (\<lambda>e. fst e = x) (shift_rows (3 * N) B4) = []" if "x < 3 * N" for x
    by (rule shift_miss) (use assms(8) that in fastforce)
  show "row_entries (vstack [B1, B2, B3, B4]) r = row_entries B1 r"
    using assms(9) shift_hit[of 0 r B1] by (simp add: row_entries_def[of "vstack _"] e m2 m3 m4)
  show "row_entries (vstack [B1, B2, B3, B4]) (N + r) = row_entries B2 r"
    using assms(9) shift_hit[of N r B2] by (simp add: row_entries_def[of "vstack _"] e m1 m3 m4)
  show "row_entries (vstack [B1, B2, B3, B4]) (2 * N + r) = row_entries B3 r"
    using assms(9) shift_hit[of "2 * N" r B3] by (simp add: row_entries_def[of "vstack _"] e m1 m2 m4)
  show "row_entries (vstack [B1, B2, B3, B4]) (3 * N + r) = row_entries B4 r"
    using assms(9) shift_hit[of "3 * N" r B4] by (simp add: row_entries_def[of "vstack _"] e m1 m2 m3)
  show "shape (vstack [B1, B2, B3, B4]) = (4 * N, c1)"
    by (simp add: vstack_def assms(1-4))
qed

lemma assemble_blocks:
  "s_A1 (assemble nm msk K s) = diag_mul (s_Nz_u (assemble nm msk K s)) (div_scalar (D_vertical_pos msk) s)"
  "s_A2 (assemble nm msk K s) = diag_mul (s_Nz_u (assemble nm msk K s)) (div_scalar (D_vertical_neg msk) s)"
  "s_A3 (assemble nm msk K s) = diag_mul (s_Nz_v (assemble nm msk K s)) (div_scalar (D_horizontal_pos msk) s)"
  "s_A4 (assemble nm msk K s) = diag_mul (s_Nz_v (assemble nm msk K s)) (div_scalar (D_horizontal_neg msk) s)"
  "s_A (assemble nm msk K s) = vstack [s_A1 (assemble nm msk K s), s_A2 (assemble nm msk K s),
      s_A3 (assemble nm msk K s), s_A4 (assemble nm msk K s)]"
  "s_b (assemble nm msk K s) = vneg (s_nx (assemble nm msk K s)) @ vneg (s_nx (assemble nm msk K s))
      @ vneg (s_ny (assemble nm msk K s)) @ vneg (s_ny (assemble nm msk K s))"
  by (simp_all add: assemble_def Let_def case_prod_unfold generate_dx_dy_def)

lemma stacked_rhs:
  assumes "length xs = N" "length ys = N" "r < N"
  shows "(vneg xs @ vneg xs @ vneg ys @ vneg ys) ! r = - xs ! r"
    and "(vneg xs @ vneg xs @ vneg ys @ vneg ys) ! (N + r) = - xs ! r"
    and "(vneg xs @ vneg xs @ vneg ys @ vneg ys) ! (2 * N + r) = - ys ! r"
    and "(vneg xs @ vneg xs @ vneg ys @ vneg ys) ! (3 * N + r) = - ys ! r"
  using assms by (simp_all add: vneg_def nth_append)

text \<open>
  Claim C7, as the code has it. \<open>generate_dx_dy\<close> returns the horizontal positive,
  horizontal negative, vertical positive and vertical negative operators, in this order.
  The blocks are \<open>A1 = diag(Nz_u) D_vertical_pos\<close>, \<open>A2 = diag(Nz_u) D_vertical_neg\<close>,
  \<open>A3 = diag(Nz_v) D_horizontal_pos\<close>, \<open>A4 = diag(Nz_v) D_horizontal_neg\<close>, stacked
  in this order into A of shape (4N, N), and \<open>b = (-nx, -nx, -ny, -ny)\<close>. Row r of
  block k of A is row r of the operator of that block scaled by the coefficient of pixel r.
\<close>

theorem stacked_system:
  assumes "rect H W msk" and "generate_dx_dy msk step_size = (Dhp, Dhn, Dvp, Dvn)"
    and "sys = assemble normal_map msk K step_size" and "N = mask_sum msk" and "r < N"
  shows "s_A1 sys = diag_mul (s_Nz_u sys) Dvp \<and> s_A2 sys = diag_mul (s_Nz_u sys) Dvn
    \<and> s_A3 sys = diag_mul (s_Nz_v sys) Dhp \<and> s_A4 sys = diag_mul (s_Nz_v sys) Dhn
    \<and> s_A sys = vstack [s_A1 sys, s_A2 sys, s_A3 sys, s_A4 sys]
    \<and> shape (s_A sys) = (4 * N, N)
    \<and> s_b sys = vneg (s_nx sys) @ vneg (s_nx sys) @ vneg (s_ny sys) @ vneg (s_ny sys)
    \<and> row_entries (s_A sys) r = map (\<lambda>(c, v). (c, s_Nz_u sys ! r * v)) (row_entries Dvp r)
    \<and> row_entries (s_A sys) (N + r) = map (\<lambda>(c, v). (c, s_Nz_u sys ! r * v)) (row_entries Dvn r)
    \<and> row_entries (s_A sys) (2 * N + r) = map (\<lambda>(c, v). (c, s_Nz_v sys ! r * v)) (row_entries Dhp r)
    \<and> row_entries (s_A sys) (3 * N + r) = map (\<lambda>(c, v). (c, s_Nz_v sys ! r * v)) (row_entries Dhn r)
    \<and> s_b sys ! r = - s_nx sys ! r \<and> s_b sys ! (N + r) = - s_nx sys ! r
    \<and> s_b sys ! (2 * N + r) = - s_ny sys ! r \<and> s_b sys ! (3 * N + r) = - s_ny sys ! r"
proof -
  have D: "Dhp = div_scalar (D_horizontal_pos msk) step_size"
    "Dhn = div_scalar (D_horizontal_neg msk) step_size"
    "Dvp = div_scalar (D_vertical_pos msk) step_size"
    "Dvn = div_scalar (D_vertical_neg msk) step_size"
    using assms(2) by (simp_all add: generate_dx_dy_def)
  note blocks = assemble_blocks[of normal_map msk K step_size, folded assms(3) D]
  note rng = operator_row_range[OF assms(1), of _ step_size, folded D assms(4)]
  have sh: "shape (s_A1 sys) = (N, N)" "shape (s_A2 sys) = (N, N)"
    "shape (s_A3 sys) = (N, N)" "shape (s_A4 sys) = (N, N)"
    unfolding blocks(1-4) D assms(4) by simp_all
  have r1: "\<forall>e \<in> set (entries (s_A1 sys)). fst e < N"
    unfolding blocks(1) by (intro ballI, erule entries_diag_mul_range[rotated]) (rule rng(3))
  have r2: "\<forall>e \<in> set (entries (s_A2 sys)). fst e < N"
    unfolding blocks(2) by (intro ballI, erule entries_diag_mul_range[rotated]) (rule rng(4))
  have r3: "\<forall>e \<in> set (entries (s_A3 sys)). fst e < N"
    unfolding blocks(3) by (intro ballI, erule entries_diag_mul_range[rotated]) (rule rng(1))
  have r4: "\<forall>e \<in> set (entries (s_A4 sys)). fst e < N"
    unfolding blocks(4) by (intro ballI, erule entries_diag_mul_range[rotated]) (rule rng(2))
  note vs = vstack4_rows[OF sh r1 r2 r3 r4 assms(5), folded blocks(5)]
  have l: "length (s_nx sys) = N" "length (s_ny sys) = N"
    unfolding assms(3,4) by (simp_all add: assemble_normals)
  note rhs = stacked_rhs[OF l assms(5), folded blocks(6)]
  have rows: "row_entries (s_A sys) r = map (\<lambda>(c, v). (c, s_Nz_u sys ! r * v)) (row_entries Dvp r)"
    "row_entries (s_A sys) (N + r) = map (\<lambda>(c, v). (c, s_Nz_u sys ! r * v)) (row_entries Dvn r)"
    "row_entries (s_A sys) (2 * N + r) = map (\<lambda>(c, v). (c, s_Nz_v sys ! r * v)) (row_entries Dhp r)"
    "row_entries (s_A sys) (3 * N + r) = map (\<lambda>(c, v). (c, s_Nz_v sys ! r * v)) (row_entries Dhn r)"
  proof -
    show "row_entries (s_A sys) r = map (\<lambda>(c, v). (c, s_Nz_u sys ! r * v)) (row_entries Dvp r)"
      by (subst vs(1), subst blocks(1)) (rule row_entries_diag_mul)
    show "row_entries (s_A sys) (N + r) = map (\<lambda>(c, v). (c, s_Nz_u sys ! r * v)) (row_entries Dvn r)"
      by (subst vs(2), subst blocks(2)) (rule row_entries_diag_mul)
    show "row_entries (s_A sys) (2 * N + r) = map (\<lambda>(c, v). (c, s_Nz_v sys ! r * v)) (row_entries Dhp r)"
      by (subst vs(3), subst blocks(3)) (rule row_entries_diag_mul)
    show "row_entries (s_A sys) (3 * N + r) = map (\<lambda>(c, v). (c, s_Nz_v sys ! r * v)) (row_entries Dhn r)"
      by (subst vs(4), subst blocks(4)) (rule row_entries_diag_mul)
  qed
  show ?thesis
    by (intro conjI blocks vs(5) rows rhs)
qed

text \<open>
  The claim as written pairs \<open>Nz_u\<close> with the horizontal operators. On a mask of one row and
  two columns with nz = 1 the horizontal positive operator has the entries -1 and 1 in
  row 0, while A1 has no entry: the pixels have no vertical neighbour.
\<close>

theorem stacked_system_counterexample:
  "entries (s_A1 (assemble [[(0, 0, - 1), (0, 0, - 1)]] [[True, True]] None 1))
   \<noteq> entries (diag_mul (s_Nz_u (assemble [[(0, 0, - 1), (0, 0, - 1)]] [[True, True]] None 1))
         (fst (generate_dx_dy [[True, True]] 1)))"
  by code_simp

theorem stacked_system_witness:
  "rect 2 1 [[True], [True]] \<and> 1 < mask_sum [[True], [True]]
   \<and> s_A1 (assemble [[(0, 0, - 1)], [(0, 0, - 1)]] [[True], [True]] None 1)
       = diag_mul (s_Nz_u (assemble [[(0, 0, - 1)], [(0, 0, - 1)]] [[True], [True]] None 1))
           (div_scalar (D_vertical_pos [[True], [True]]) 1)
   \<and> shape (s_A (assemble [[(0, 0, - 1)], [(0, 0, - 1)]] [[True], [True]] None 1))
       = (4 * mask_sum [[True], [True]], mask_sum [[True], [True]])
   \<and> row_entries (s_A (assemble [[(0, 0, - 1)], [(0, 0, - 1)]] [[True], [True]] None 1)) 1
       = map (\<lambda>(c, v). (c, s_Nz_u (assemble [[(0, 0, - 1)], [(0, 0, - 1)]] [[True], [True]] None 1) ! 1 * v))
           (row_entries (div_scalar (D_vertical_pos [[True], [True]]) 1) 1)"
proof -
  have h: "rect 2 1 [[True], [True]]" "1 < mask_sum [[True], [True]]"
    by (simp_all add: rect_def mask_sum_def)
  have g: "generate_dx_dy [[True], [True]] 1 =
      (div_scalar (D_horizontal_pos [[True], [True]]) 1, div_scalar (D_horizontal_neg [[True], [True]]) 1,
       div_scalar (D_vertical_pos [[True], [True]]) 1, div_scalar (D_vertical_neg [[True], [True]]) 1)"
    by (simp add: generate_dx_dy_def)
  note t = stacked_system[OF h(1) g refl refl h(2), of "[[(0, 0, - 1)], [(0, 0, - 1)]]" None]
  show ?thesis using t h by blast
qed

section \<open>The weights\<close>

lemma fsum_Fin: "fsum (map Fin xs) = Fin (sum_list xs)"
  by (induction xs) (simp_all add: fsum_def)

lemma fsum_Nil [simp]: "fsum [] = Fin 0"
  by (simp add: fsum_def)

lemma fspmv_Fin:
  assumes "list_all (\<lambda>e. fst (snd e) < length z0) (entries D)"
  shows "fspmv D (map Fin z0) = map Fin (spmv D z0)"
proof -
  have "map (\<lambda>(c, v). fmul (Fin v) (map Fin z0 ! c)) (row_entries D r)
      = map Fin (map (\<lambda>(c, v). v * z0 ! c) (row_entries D r))" for r
    using assms by (auto simp: row_entries_def list_all_iff)
  then have "fsum (map (\<lambda>(c, v). fmul (Fin v) (map Fin z0 ! c)) (row_entries D r))
      = Fin (sum_list (map (\<lambda>(c, v). v * z0 ! c) (row_entries D r)))" for r
    by (simp only: fsum_Fin)
  then show ?thesis by (simp add: fspmv_def spmv_def)
qed

lemma sigmoid_Fin: "sigmoid (Fin x) k = Fin (1 / (1 + exp (- k * x)))"
proof -
  have "0 < 1 + exp (- (k * x))" by (simp add: add_pos_pos)
  then show ?thesis by (simp add: sigmoid_def)
qed

lemma sigmoid_NaN [simp]: "sigmoid NaN k = NaN"
  by (simp add: sigmoid_def)

lemma sigmoid_real_range: "0 < 1 / (1 + exp (- k * x))" "1 / (1 + exp (- k * x)) < (1::real)"
proof -
  have e: "0 < exp (- k * x)" by simp
  show "0 < 1 / (1 + exp (- k * x))" using e by (simp add: add_pos_pos)
  have "1 < 1 + exp (- k * x)" using e by simp
  then show "1 / (1 + exp (- k * x)) < 1"
    by (simp only: divide_less_eq_1_pos[OF add_pos_pos[OF zero_less_one e]])
qed

lemma assemble_shapes:
  "shape (s_A1 (assemble nm msk K s)) = (mask_sum msk, mask_sum msk)"
  "shape (s_A2 (assemble nm msk K s)) = (mask_sum msk, mask_sum msk)"
  "shape (s_A3 (assemble nm msk K s)) = (mask_sum msk, mask_sum msk)"
  "shape (s_A4 (assemble nm msk K s)) = (mask_sum msk, mask_sum msk)"
  by (simp_all add: assemble_blocks)

lemma length_fspmv [simp]: "length (fspmv D z0) = fst (shape D)"
  by (simp add: fspmv_def)

lemma length_update_weights:
  "length (update_weights Aneg Apos z0 k) = min (fst (shape Aneg)) (fst (shape Apos))"
  by (simp add: update_weights_def fvsub_def)

lemma update_weights_nth:
  assumes "i < fst (shape Aneg)" "i < fst (shape Apos)"
  shows "update_weights Aneg Apos z0 k ! i
     = sigmoid (fsub (fsq (fspmv Aneg z0 ! i)) (fsq (fspmv Apos z0 ! i))) k"
  using assms by (simp add: update_weights_def fvsub_def)

lemma irls_iteration_fields:
  assumes "st' = irls_iteration cg sys pr k lambda1 cg_max_iter cg_tol st"
  shows "st_z st' = solve_step cg sys pr lambda1 cg_max_iter cg_tol st"
    and "st_wu st' = Some (update_weights (s_A2 sys) (s_A1 sys) (st_z st') k)"
    and "st_wv st' = Some (update_weights (s_A4 sys) (s_A3 sys) (st_z st') k)"
    and "st_W st' = weight_diagonal (update_weights (s_A2 sys) (s_A1 sys) (st_z st') k)
                      (update_weights (s_A4 sys) (s_A3 sys) (st_z st') k)"
    and "st_energy st' = quadratic_energy (s_A sys) (st_W st') (st_z st') (s_b sys)"
    and "st_energy_list st' = st_energy_list st @ [st_energy st']"
  unfolding assms by (simp_all add: irls_iteration_def Let_def)

lemma weights_layout:
  assumes "sys = assemble nm msk K s" and "N = mask_sum msk" and "i < N"
    and "Wd = weight_diagonal (update_weights (s_A2 sys) (s_A1 sys) z0 k)
                (update_weights (s_A4 sys) (s_A3 sys) z0 k)"
  shows "length Wd = 4 * N"
    and "Wd ! i = sigmoid (fsub (fsq (fspmv (s_A2 sys) z0 ! i)) (fsq (fspmv (s_A1 sys) z0 ! i))) k"
    and "Wd ! (N + i) = fsub (Fin 1) (Wd ! i)"
    and "Wd ! (2 * N + i) = sigmoid (fsub (fsq (fspmv (s_A4 sys) z0 ! i)) (fsq (fspmv (s_A3 sys) z0 ! i))) k"
    and "Wd ! (3 * N + i) = fsub (Fin 1) (Wd ! (2 * N + i))"
    and "take N Wd = update_weights (s_A2 sys) (s_A1 sys) z0 k"
    and "take N (drop (2 * N) Wd) = update_weights (s_A4 sys) (s_A3 sys) z0 k"
proof -
  let ?wu = "update_weights (s_A2 sys) (s_A1 sys) z0 k"
  let ?wv = "update_weights (s_A4 sys) (s_A3 sys) z0 k"
  have lu: "length ?wu = N" and lv: "length ?wv = N"
    unfolding assms(1,2) by (simp_all add: length_update_weights assemble_shapes)
  have nu: "?wu ! i = sigmoid (fsub (fsq (fspmv (s_A2 sys) z0 ! i)) (fsq (fspmv (s_A1 sys) z0 ! i))) k"
    by (rule update_weights_nth) (use assms(1-3) in \<open>simp_all add: assemble_shapes\<close>)
  have nv: "?wv ! i = sigmoid (fsub (fsq (fspmv (s_A4 sys) z0 ! i)) (fsq (fspmv (s_A3 sys) z0 ! i))) k"
    by (rule update_weights_nth) (use assms(1-3) in \<open>simp_all add: assemble_shapes\<close>)
  have W: "Wd = ?wu @ map (fsub (Fin 1)) ?wu @ ?wv @ map (fsub (Fin 1)) ?wv"
    unfolding assms(4) by (simp add: weight_diagonal_def)
  show "length Wd = 4 * N" unfolding W by (simp add: lu lv)
  show "Wd ! i = sigmoid (fsub (fsq (fspmv (s_A2 sys) z0 ! i)) (fsq (fspmv (s_A1 sys) z0 ! i))) k"
    unfolding W using assms(3) by (simp add: nth_append lu nu)
  show "Wd ! (N + i) = fsub (Fin 1) (Wd ! i)"
    unfolding W using assms(3) by (simp add: nth_append lu lv)
  show "Wd ! (2 * N + i) = sigmoid (fsub (fsq (fspmv (s_A4 sys) z0 ! i)) (fsq (fspmv (s_A3 sys) z0 ! i))) k"
    unfolding W using assms(3) by (simp add: nth_append lu lv nv)
  show "Wd ! (3 * N + i) = fsub (Fin 1) (Wd ! (2 * N + i))"
    unfolding W using assms(3) by (simp add: nth_append lu lv)
  show "take N Wd = ?wu" unfolding W by (simp add: lu)
  show "take N (drop (2 * N) Wd) = ?wv" unfolding W by (simp add: lu lv)
qed

lemma finite_weight:
  "sigmoid (fsub (fsq (Fin a)) (fsq (Fin b))) k = Fin (1 / (1 + exp (- k * (a\<^sup>2 - b\<^sup>2))))"
  "fsub (Fin 1) (Fin w) = Fin (1 - w)"
  by (simp_all add: fsub_def fsq_def sigmoid_Fin power2_eq_square)

lemma tilted_products:
  "fspmv (s_A1 tilted_system) [Fin (- (3 / 8)), Fin (3 / 8)] = [Fin 0, Fin (- (3 / 4))]"
  "fspmv (s_A2 tilted_system) [Fin (- (3 / 8)), Fin (3 / 8)] = [Fin (- (3 / 4)), Fin 0]"
  "mask_sum column_mask = 2"
  by code_simp+

lemma constant_solver_z:
  "st_z (irls_iteration (constant_solver x) sys pr k lambda1 cg_max_iter cg_tol st) = x"
  by (cases pr) (simp_all add: irls_iteration_def solve_step_def Let_def constant_solver_def)

text \<open>
  Claim C1, as the code has it. After every iteration, with dp the forward estimate
  \<open>A1 z\<close> and du the backward estimate \<open>A2 z\<close> at a pixel, the weight of the forward
  block is \<open>sigmoid(du\<^sup>2 - dp\<^sup>2, k)\<close>, the weight of the backward block is 1 minus the
  forward weight, likewise for A3 and A4, and W is the concatenation of the four weight
  vectors; \<open>wu\<close> and \<open>wv\<close> are the two forward blocks. Where the two estimates are the
  numbers a and b, the forward weight is the number \<open>1 / (1 + exp (- k (a\<^sup>2 - b\<^sup>2)))\<close>.
\<close>

theorem bilateral_weights:
  assumes "sys = assemble normal_map msk K step_size"
    and "st' = irls_iteration cg sys pr k lambda1 cg_max_iter cg_tol st"
    and "N = mask_sum msk" and "i < N"
    and "dp_u = fspmv (s_A1 sys) (st_z st') ! i" and "du_u = fspmv (s_A2 sys) (st_z st') ! i"
    and "dp_v = fspmv (s_A3 sys) (st_z st') ! i" and "du_v = fspmv (s_A4 sys) (st_z st') ! i"
  shows "length (st_W st') = 4 * N
    \<and> st_W st' ! i = sigmoid (fsub (fsq du_u) (fsq dp_u)) k
    \<and> st_W st' ! (N + i) = fsub (Fin 1) (st_W st' ! i)
    \<and> st_W st' ! (2 * N + i) = sigmoid (fsub (fsq du_v) (fsq dp_v)) k
    \<and> st_W st' ! (3 * N + i) = fsub (Fin 1) (st_W st' ! (2 * N + i))
    \<and> st_wu st' = Some (take N (st_W st'))
    \<and> st_wv st' = Some (take N (drop (2 * N) (st_W st')))
    \<and> (du_u = Fin a \<and> dp_u = Fin b \<longrightarrow>
          st_W st' ! i = Fin (1 / (1 + exp (- k * (a\<^sup>2 - b\<^sup>2))))
        \<and> st_W st' ! (N + i) = Fin (1 - 1 / (1 + exp (- k * (a\<^sup>2 - b\<^sup>2)))))
    \<and> (du_v = Fin c \<and> dp_v = Fin d \<longrightarrow>
          st_W st' ! (2 * N + i) = Fin (1 / (1 + exp (- k * (c\<^sup>2 - d\<^sup>2))))
        \<and> st_W st' ! (3 * N + i) = Fin (1 - 1 / (1 + exp (- k * (c\<^sup>2 - d\<^sup>2)))))"
proof -
  note w = irls_iteration_fields[OF assms(2)]
  note l = weights_layout[OF assms(1,3,4) w(4), folded assms(5-8)]
  have fu: "st_W st' ! i = Fin (1 / (1 + exp (- k * (a\<^sup>2 - b\<^sup>2))))
        \<and> st_W st' ! (N + i) = Fin (1 - 1 / (1 + exp (- k * (a\<^sup>2 - b\<^sup>2))))"
    if "du_u = Fin a \<and> dp_u = Fin b"
    using that by (simp add: l(2,3) finite_weight)
  have fv: "st_W st' ! (2 * N + i) = Fin (1 / (1 + exp (- k * (c\<^sup>2 - d\<^sup>2))))
        \<and> st_W st' ! (3 * N + i) = Fin (1 - 1 / (1 + exp (- k * (c\<^sup>2 - d\<^sup>2))))"
    if "du_v = Fin c \<and> dp_v = Fin d"
    using that by (simp add: l(4,5) finite_weight)
  have s: "st_wu st' = Some (take N (st_W st'))" "st_wv st' = Some (take N (drop (2 * N) (st_W st')))"
    by (simp_all add: w(2,3) l(6,7))
  show ?thesis
    using l(1-5) s fu fv by blast
qed

theorem bilateral_weights_witness:
  "(1::nat) < mask_sum column_mask
   \<and> fspmv (s_A2 tilted_system)
        (st_z (irls_iteration (constant_solver [Fin (- 3 / 8), Fin (3 / 8)]) tilted_system None 2 0 500
           (1 / 100000) (initial_state tilted_system column_mask))) ! 1 = Fin 0
   \<and> fspmv (s_A1 tilted_system)
        (st_z (irls_iteration (constant_solver [Fin (- 3 / 8), Fin (3 / 8)]) tilted_system None 2 0 500
           (1 / 100000) (initial_state tilted_system column_mask))) ! 1 = Fin (- 3 / 4)
   \<and> st_W (irls_iteration (constant_solver [Fin (- 3 / 8), Fin (3 / 8)]) tilted_system None 2 0 500
        (1 / 100000) (initial_state tilted_system column_mask)) ! 1
      = Fin (1 / (1 + exp (- 2 * (0\<^sup>2 - (- 3 / 4)\<^sup>2))))"
proof -
  have h: "(1::nat) < mask_sum column_mask" by (simp add: tilted_products)
  have p: "fspmv (s_A2 tilted_system)
        (st_z (irls_iteration (constant_solver [Fin (- 3 / 8), Fin (3 / 8)]) tilted_system None 2 0 500
           (1 / 100000) (initial_state tilted_system column_mask))) ! 1 = Fin 0"
    "fspmv (s_A1 tilted_system)
        (st_z (irls_iteration (constant_solver [Fin (- 3 / 8), Fin (3 / 8)]) tilted_system None 2 0 500
           (1 / 100000) (initial_state tilted_system column_mask))) ! 1 = Fin (- 3 / 4)"
    by (simp_all add: constant_solver_z tilted_products)
  note t = bilateral_weights[OF tilted_system_def refl refl h refl refl refl refl,
      of "constant_solver [Fin (- 3 / 8), Fin (3 / 8)]" None 2 0 500 "1 / 100000"
         "initial_state tilted_system column_mask" 0 "- 3 / 4"]
  show ?thesis using t h p by blast
qed

text \<open>
  The claim as written has the forward weight \<open>sigmoid(dp\<^sup>2 - du\<^sup>2, k)\<close>. On the column
  of two pixels with the tilted normals, the least-squares depth of the first iteration is
  (-3/8, 3/8): the lower pixel has dp = -3/4 and du = 0, and its forward weight is
  \<open>sigmoid(-9/16)\<close>, not \<open>sigmoid(9/16)\<close>.
\<close>

theorem bilateral_weights_counterexample:
  "st_W (irls_iteration (constant_solver [Fin (- 3 / 8), Fin (3 / 8)]) tilted_system None 2 0 500
        (1 / 100000) (initial_state tilted_system column_mask)) ! 1
   \<noteq> sigmoid
        (fsub (fsq (fspmv (s_A1 tilted_system)
                 (st_z (irls_iteration (constant_solver [Fin (- 3 / 8), Fin (3 / 8)]) tilted_system
                    None 2 0 500 (1 / 100000) (initial_state tilted_system column_mask))) ! 1))
              (fsq (fspmv (s_A2 tilted_system)
                 (st_z (irls_iteration (constant_solver [Fin (- 3 / 8), Fin (3 / 8)]) tilted_system
                    None 2 0 500 (1 / 100000) (initial_state tilted_system column_mask))) ! 1)))
        2"
proof -
  let ?st = "irls_iteration (constant_solver [Fin (- 3 / 8), Fin (3 / 8)]) tilted_system None 2 0 500
        (1 / 100000) (initial_state tilted_system column_mask)"
  have z: "st_z ?st = [Fin (- 3 / 8), Fin (3 / 8)]" by (rule constant_solver_z)
  note w = irls_iteration_fields(4)[OF refl,
      of "constant_solver [Fin (- 3 / 8), Fin (3 / 8)]" tilted_system None 2 0 500 "1 / 100000"
         "initial_state tilted_system column_mask", unfolded z]
  have "st_W ?st ! 1 = sigmoid (fsub (fsq (fspmv (s_A2 tilted_system) [Fin (- 3 / 8), Fin (3 / 8)] ! 1))
      (fsq (fspmv (s_A1 tilted_system) [Fin (- 3 / 8), Fin (3 / 8)] ! 1))) 2"
    by (rule weights_layout(2)[OF tilted_system_def refl _ w]) (simp add: tilted_products)
  then show ?thesis
    by (simp add: constant_solver_z tilted_products fsub_def fsq_def sigmoid_Fin)
qed

lemma initial_weights:
  "st_W (initial_state (assemble nm msk K s) msk) = replicate (4 * mask_sum msk) (Fin (1 / 2))"
proof -
  have "length (s_b (assemble nm msk K s)) = 4 * mask_sum msk"
    by (simp add: assemble_blocks(6) vneg_def assemble_normals)
  then show ?thesis
    by (simp add: initial_state_def Let_def smul_def map_replicate_const)
qed

lemma finite_weights_complementary:
  assumes "sys = assemble normal_map msk K step_size"
    and "st' = irls_iteration cg sys pr k lambda1 cg_max_iter cg_tol st"
    and "N = mask_sum msk" and "i < N"
    and "fspmv (s_A2 sys) (st_z st') ! i = Fin a" and "fspmv (s_A1 sys) (st_z st') ! i = Fin b"
  shows "\<exists>w. st_W st' ! i = Fin w \<and> st_W st' ! (N + i) = Fin (1 - w) \<and> 0 < w \<and> w < 1"
proof -
  note w = irls_iteration_fields[OF assms(2)]
  note l = weights_layout[OF assms(1,3,4) w(4)]
  show ?thesis
    using sigmoid_real_range[of k "a\<^sup>2 - b\<^sup>2"]
    by (intro exI[of _ "1 / (1 + exp (- k * (a\<^sup>2 - b\<^sup>2)))"])
       (simp add: l(2,3) assms(5,6) finite_weight)
qed

lemma tilted_initial:
  "st_z (initial_state tilted_system column_mask) = [Fin 0, Fin 0]"
  "st_W (initial_state tilted_system column_mask) = replicate 8 (Fin (1 / 2))"
  by (simp_all add: tilted_system_def initial_weights tilted_products(3))
     (simp add: initial_state_def Let_def tilted_products(3) numeral_2_eq_2)

lemma column_nonzero: "nonzero column_mask = [(0, 0), (1, 0)]"
  by code_simp

lemma missing_prior:
  "p_m (make_prior [[3], [5]] [[False], [False]] column_mask False) = [0, 0]"
  "p_z_prior (make_prior [[3], [5]] [[False], [False]] column_mask False) = [Fin 3, Fin 5]"
  by (simp_all add: make_prior_def take_mask_def column_nonzero cell_def)

lemma tilted_rhs:
  "normal_rhs (s_A tilted_system) (replicate 8 (Fin (1 / 2))) (s_b tilted_system)
     = [Fin (- (3 / 4)), Fin (3 / 4)]"
  by code_simp

lemma tilted_nan_products:
  "fspmv (s_A1 tilted_system) [NaN, NaN] = [Fin 0, NaN]"
  "fspmv (s_A2 tilted_system) [NaN, NaN] = [NaN, Fin 0]"
  "fspmv (s_A3 tilted_system) [NaN, NaN] = [Fin 0, Fin 0]"
  "fspmv (s_A4 tilted_system) [NaN, NaN] = [Fin 0, Fin 0]"
  by code_simp+

lemma nan_offset:
  "depth_offset [0, 0] [Fin 3, Fin 5] [Fin 0, Fin 0] = NaN"
  "add_scalar [Fin 0, Fin 0] NaN = [NaN, NaN]"
  by (simp_all add: depth_offset_def nanmean_def mark_zero_def fvmul_def fvsub_def fsub_def
      add_scalar_def)

text \<open>
  Claim C4. Every one of the 4N weights is 0.5 before the first iteration (lemma
  \<open>initial_weights\<close>), and where the two estimates of a pixel are numbers its forward and
  backward weights lie between 0 and 1 and add up to 1 (lemma
  \<open>finite_weights_complementary\<close>). The code does not keep this at every iteration: when
  the offset of the depth prior is NaN, z is NaN, the solver is started from it with the
  right-hand side (-3/4, 3/4), and from a depth that is NaN the weights of the first axis
  are NaN. The input is the column of two pixels with the tilted normals and a depth mask
  that marks no valid pixel.
\<close>

theorem weights_not_a_number:
  "st_W (initial_state tilted_system column_mask) = replicate 8 (Fin (1 / 2))
   \<and> fvadd (normal_rhs (s_A tilted_system) (st_W (initial_state tilted_system column_mask))
            (s_b tilted_system))
         (fvmul (map Fin (smul 0 (p_m (make_prior [[3], [5]] [[False], [False]] column_mask False))))
            (p_z_prior (make_prior [[3], [5]] [[False], [False]] column_mask False)))
     = [Fin (- (3 / 4)), Fin (3 / 4)]
   \<and> st_z (irls_iteration warm_start_solver tilted_system
        (Some (make_prior [[3], [5]] [[False], [False]] column_mask False)) 2 0 500 (1 / 100000)
        (initial_state tilted_system column_mask)) = [NaN, NaN]
   \<and> st_wu (irls_iteration warm_start_solver tilted_system
        (Some (make_prior [[3], [5]] [[False], [False]] column_mask False)) 2 0 500 (1 / 100000)
        (initial_state tilted_system column_mask)) = Some [NaN, NaN]
   \<and> st_W (irls_iteration warm_start_solver tilted_system
        (Some (make_prior [[3], [5]] [[False], [False]] column_mask False)) 2 0 500 (1 / 100000)
        (initial_state tilted_system column_mask))
     = [NaN, NaN, NaN, NaN, Fin (1 / 2), Fin (1 / 2), Fin (1 / 2), Fin (1 / 2)]"
proof -
  let ?pr = "make_prior [[3], [5]] [[False], [False]] column_mask False"
  let ?st = "irls_iteration warm_start_solver tilted_system (Some ?pr) 2 0 500 (1 / 100000)
        (initial_state tilted_system column_mask)"
  have b: "fvadd (normal_rhs (s_A tilted_system) (st_W (initial_state tilted_system column_mask))
            (s_b tilted_system))
         (fvmul (map Fin (smul 0 (p_m ?pr))) (p_z_prior ?pr)) = [Fin (- (3 / 4)), Fin (3 / 4)]"
    by (simp add: tilted_initial missing_prior tilted_rhs fvadd_def fvmul_def smul_def)
  have z: "st_z ?st = [NaN, NaN]"
    by (simp add: irls_iteration_def solve_step_def Let_def warm_start_solver_def tilted_initial
        missing_prior nan_offset)
  have wu: "update_weights (s_A2 tilted_system) (s_A1 tilted_system) [NaN, NaN] 2 = [NaN, NaN]"
    by (simp add: update_weights_def tilted_nan_products fvsub_def fsq_def fsub_def)
  have wv: "update_weights (s_A4 tilted_system) (s_A3 tilted_system) [NaN, NaN] 2
      = [Fin (1 / 2), Fin (1 / 2)]"
    by (simp add: update_weights_def tilted_nan_products fvsub_def fsq_def fsub_def sigmoid_Fin)
  note f = irls_iteration_fields[OF refl, of warm_start_solver tilted_system "Some ?pr" 2 0 500
      "1 / 100000" "initial_state tilted_system column_mask", unfolded z]
  have u: "st_wu ?st = Some [NaN, NaN]" by (simp only: f(2) wu)
  have W: "st_W ?st = [NaN, NaN, NaN, NaN, Fin (1 / 2), Fin (1 / 2), Fin (1 / 2), Fin (1 / 2)]"
    by (simp only: f(4) wu wv) (simp add: weight_diagonal_def fsub_def)
  show ?thesis by (simp only: tilted_initial(2) b[unfolded tilted_initial(2)] z u W simp_thms)
qed

section \<open>The depth prior and the loop\<close>

lemma nanmean_mark_zero:
  "nanmean (mark_zero (map Fin ds)) =
     (if filter (\<lambda>d. d \<noteq> 0) ds = [] then NaN
      else Fin (sum_list (filter (\<lambda>d. d \<noteq> 0) ds) / real (length (filter (\<lambda>d. d \<noteq> 0) ds))))"
proof -
  have "filter (\<lambda>x. x \<noteq> NaN) (mark_zero (map Fin ds)) = map Fin (filter (\<lambda>d. d \<noteq> 0) ds)"
    by (induction ds) (simp_all add: mark_zero_def)
  then show ?thesis by (simp add: nanmean_def Let_def fsum_Fin)
qed

lemma depth_offset_mean:
  "depth_offset mv (map Fin zp) (map Fin z0) =
     (if filter (\<lambda>d. d \<noteq> 0) (vmul mv (vsub zp z0)) = [] then NaN
      else Fin (sum_list (filter (\<lambda>d. d \<noteq> 0) (vmul mv (vsub zp z0)))
                 / real (length (filter (\<lambda>d. d \<noteq> 0) (vmul mv (vsub zp z0))))))"
proof -
  have "fvmul (map Fin mv) (fvsub (map Fin zp) (map Fin z0)) = map Fin (vmul mv (vsub zp z0))"
    by (simp add: fvmul_def fvsub_def vmul_def vsub_def fsub_def zip_map_map zip_map1 zip_map2
        case_prod_unfold)
  then show ?thesis by (simp only: depth_offset_def nanmean_mark_zero)
qed

text \<open>
  Claim C2. The offset is the mean of the nonzero residuals \<open>m * (z_prior - z)\<close>
  (lemma \<open>depth_offset_mean\<close>). When every residual is zero the code does not take 0 as
  the offset: all entries become NaN, their \<open>nanmean\<close> is NaN, \<open>z + offset\<close> is NaN in
  every entry, and the solver is started from it. Two inputs on the column of two pixels in
  the first iteration, where z is zero: a depth mask that marks no valid pixel, and a prior
  depth of 0 at both pixels.
\<close>

theorem prior_offset_not_a_number:
  "p_m (make_prior [[3], [5]] [[False], [False]] column_mask False) = [0, 0]
   \<and> p_z_prior (make_prior [[3], [5]] [[False], [False]] column_mask False) = [Fin 3, Fin 5]
   \<and> st_z (initial_state column_system column_mask) = [Fin 0, Fin 0]
   \<and> depth_offset [0, 0] [Fin 3, Fin 5] [Fin 0, Fin 0] = NaN
   \<and> add_scalar [Fin 0, Fin 0] (depth_offset [0, 0] [Fin 3, Fin 5] [Fin 0, Fin 0]) = [NaN, NaN]
   \<and> solve_step warm_start_solver column_system
        (Some (make_prior [[3], [5]] [[False], [False]] column_mask False)) 0 500 (1 / 100000)
        (initial_state column_system column_mask) = [NaN, NaN]
   \<and> p_m (make_prior [[0], [0]] [[True], [True]] column_mask False) = [1, 1]
   \<and> p_z_prior (make_prior [[0], [0]] [[True], [True]] column_mask False) = [Fin 0, Fin 0]
   \<and> depth_offset [1, 1] [Fin 0, Fin 0] [Fin 0, Fin 0] = NaN
   \<and> add_scalar [Fin 0, Fin 0] (depth_offset [1, 1] [Fin 0, Fin 0] [Fin 0, Fin 0]) = [NaN, NaN]"
proof -
  have p2: "p_m (make_prior [[0], [0]] [[True], [True]] column_mask False) = [1, 1]"
    "p_z_prior (make_prior [[0], [0]] [[True], [True]] column_mask False) = [Fin 0, Fin 0]"
    by (simp_all add: make_prior_def take_mask_def column_nonzero cell_def)
  have z0: "st_z (initial_state column_system column_mask) = [Fin 0, Fin 0]"
    by (simp add: initial_state_def Let_def tilted_products(3) numeral_2_eq_2)
  have d: "depth_offset [1, 1] [Fin 0, Fin 0] [Fin 0, Fin 0] = NaN"
    by (simp add: depth_offset_def nanmean_def mark_zero_def fvmul_def fvsub_def fsub_def)
  have s: "solve_step warm_start_solver column_system
        (Some (make_prior [[3], [5]] [[False], [False]] column_mask False)) 0 500 (1 / 100000)
        (initial_state column_system column_mask) = [NaN, NaN]"
    by (simp add: solve_step_def Let_def warm_start_solver_def missing_prior z0 nan_offset)
  show ?thesis
    by (simp only: missing_prior p2 z0 d nan_offset s simp_thms)
qed

text \<open>
  Claim C8. The loop runs at most \<open>max_iter\<close> times, appends one energy per pass and
  stops early exactly when the relative energy is below \<open>tol\<close> (lemmas
  \<open>irls_loop_trace\<close> and \<open>irls_loop_bounded\<close> below). With \<open>max_iter = 0\<close> the loop is
  exhausted at once, and the statements after it read \<open>wv\<close>, which only the loop body
  binds: the call fails instead of returning the outputs of the current z.
\<close>

theorem no_iteration_unbound:
  "bilateral_normal_integration cg normal_map msk k lambda1 depth K step_size 0 tol
     cg_max_iter cg_tol = Inl UnboundLocalError"
  by (simp add: bilateral_normal_integration_def finish_def initial_state_def Let_def)

lemma irls_loop_trace:
  assumes "\<And>s. st_energy_list (body s) = st_energy_list s @ [st_energy (body s)]"
    and "irls_loop body tol n st = (st', t)"
  shows "\<exists>k\<le>n. length (st_energy_list st') = length (st_energy_list st) + k
      \<and> (k = 0 \<longrightarrow> st' = st) \<and> (t = Exhausted \<longrightarrow> k = n) \<and> (t = Converged \<longrightarrow> 0 < k)
      \<and> (0 < k \<longrightarrow> (\<exists>s. st' = body s
            \<and> (t = Converged \<longleftrightarrow> below (relative_energy (st_energy st') (st_energy s)) tol)))"
  using assms(2)
proof (induction n arbitrary: st)
  case 0
  then show ?case by auto
next
  case (Suc n)
  let ?s1 = "body st"
  note a = assms(1)[of st]
  show ?case
  proof (cases "below (relative_energy (st_energy ?s1) (st_energy st)) tol")
    case True
    then have "st' = ?s1" "t = Converged" using Suc.prems by (auto simp: Let_def)
    then show ?thesis using a True by (intro exI[of _ 1]) auto
  next
    case False
    then have r: "irls_loop body tol n ?s1 = (st', t)" using Suc.prems by (auto simp: Let_def)
    from Suc.IH[OF r] obtain k where k: "k \<le> n"
      "length (st_energy_list st') = length (st_energy_list ?s1) + k"
      "k = 0 \<longrightarrow> st' = ?s1" "t = Exhausted \<longrightarrow> k = n" "t = Converged \<longrightarrow> 0 < k"
      "0 < k \<longrightarrow> (\<exists>s. st' = body s
            \<and> (t = Converged \<longleftrightarrow> below (relative_energy (st_energy st') (st_energy s)) tol))"
      by blast
    have last: "\<exists>s. st' = body s
            \<and> (t = Converged \<longleftrightarrow> below (relative_energy (st_energy st') (st_energy s)) tol)"
    proof (cases "k = 0")
      case True
      then have "st' = ?s1" "t \<noteq> Converged" using k(3,5) by auto
      then show ?thesis using False by auto
    next
      case False
      then show ?thesis using k(6) by simp
    qed
    show ?thesis
      using k(1,2,4) a last by (intro exI[of _ "Suc k"]) auto
  qed
qed

lemma irls_loop_bounded:
  assumes "irls_loop (irls_iteration cg sys pr k lambda1 cg_max_iter cg_tol) tol max_iter st = (st', t)"
  shows "length (st_energy_list st') \<le> length (st_energy_list st) + max_iter"
  using irls_loop_trace[OF _ assms] irls_iteration_fields(6)[OF refl] by fastforce

lemma zero_energy_never_below:
  "\<not> below (relative_energy e (Fin 0)) tol"
proof (cases e)
  case (Fin a)
  then show ?thesis by (simp add: below_def relative_energy_def fsub_def)
qed (simp_all add: below_def relative_energy_def fsub_def)

lemma nan_energy_never_below:
  "\<not> below (relative_energy NaN e) tol" "\<not> below (relative_energy e NaN) tol"
  by (cases e; simp add: below_def relative_energy_def fsub_def)+

lemma empty_nonzero: "mask_sum msk = 0 \<Longrightarrow> nonzero msk = []"
  using length_nonzero[of msk] by simp

lemma empty_take: "mask_sum msk = 0 \<Longrightarrow> take_mask g msk = []"
  by (simp add: take_mask_def empty_nonzero)

lemma empty_put: "mask_sum msk = 0 \<Longrightarrow> put_mask g msk vs = g"
  by (simp add: put_mask_def empty_nonzero)

lemma empty_facets:
  assumes "rect H W msk" "mask_sum msk = 0"
  shows "construct_facets_from msk = []"
proof -
  have "set (nonzero (facet_top_left_mask msk)) \<subseteq> set (nonzero msk)"
    by (auto simp: nonzero_top_left[OF assms(1)] nonzero_rect[OF assms(1)])
  then have "nonzero (facet_top_left_mask msk) = []"
    by (simp add: empty_nonzero[OF assms(2)])
  then show ?thesis by (simp add: facets_as_blocks[OF assms(1)])
qed

lemma empty_system:
  assumes "mask_sum msk = 0" and "sys = assemble nm msk K s"
  shows "s_b sys = []" and "fspmv (s_A sys) z0 = []"
    and "update_weights (s_A2 sys) (s_A1 sys) z0 k = []"
    and "update_weights (s_A4 sys) (s_A3 sys) z0 k = []"
proof -
  show "s_b sys = []"
    unfolding assms(2) by (simp add: assemble_blocks(6) assemble_normals vneg_def empty_take[OF assms(1)])
  have "fst (shape (s_A sys)) = 0"
    unfolding assms(2) by (simp add: assemble_blocks(5) vstack_def assemble_shapes assms(1))
  then show "fspmv (s_A sys) z0 = []" by (simp add: fspmv_def)
  have l: "length (update_weights (s_A2 sys) (s_A1 sys) z0 k) = 0"
    "length (update_weights (s_A4 sys) (s_A3 sys) z0 k) = 0"
    unfolding assms(2) by (simp_all add: length_update_weights assemble_shapes assms(1))
  show "update_weights (s_A2 sys) (s_A1 sys) z0 k = []"
    "update_weights (s_A4 sys) (s_A3 sys) z0 k = []"
    using l by simp_all
qed

lemma empty_iteration:
  assumes "mask_sum msk = 0" and "sys = assemble nm msk K s"
  shows "irls_iteration cg sys pr k lambda1 cg_max_iter cg_tol st =
     \<lparr>st_z = solve_step cg sys pr lambda1 cg_max_iter cg_tol st, st_W = [], st_energy = Fin 0,
      st_energy_list = st_energy_list st @ [Fin 0], st_wu = Some [], st_wv = Some []\<rparr>"
  by (simp add: irls_iteration_def Let_def empty_system[OF assms]
      weight_diagonal_def quadratic_energy_def fvsub_def fvmul_def)

lemma empty_loop:
  assumes "mask_sum msk = 0" and "sys = assemble nm msk K s"
  shows "st_energy st = Fin 0 \<Longrightarrow>
     \<exists>st'. irls_loop (irls_iteration cg sys pr k lambda1 cg_max_iter cg_tol) tol n st
            = (st', Exhausted)
       \<and> st_energy_list st' = st_energy_list st @ replicate n (Fin 0)
       \<and> (if n = 0 then st' = st else st_wu st' = Some [] \<and> st_wv st' = Some [])"
proof (induction n arbitrary: st)
  case 0
  then show ?case by simp
next
  case (Suc n)
  let ?s1 = "irls_iteration cg sys pr k lambda1 cg_max_iter cg_tol st"
  note b = empty_iteration[OF assms, of cg pr k lambda1 cg_max_iter cg_tol st]
  have e: "st_energy ?s1 = Fin 0" by (simp add: b)
  from Suc.IH[OF e] obtain st' where
    r: "irls_loop (irls_iteration cg sys pr k lambda1 cg_max_iter cg_tol) tol n ?s1
            = (st', Exhausted)"
    and l: "st_energy_list st' = st_energy_list ?s1 @ replicate n (Fin 0)"
    and w: "if n = 0 then st' = ?s1 else st_wu st' = Some [] \<and> st_wv st' = Some []"
    by blast
  have w': "st_wu st' = Some [] \<and> st_wv st' = Some []"
    using w by (cases "n = 0") (simp_all add: b)
  have "irls_loop (irls_iteration cg sys pr k lambda1 cg_max_iter cg_tol) tol (Suc n) st
      = (st', Exhausted)"
    using r Suc.prems zero_energy_never_below[of "st_energy ?s1" tol] by (simp add: Let_def)
  moreover have "st_energy_list st' = st_energy_list st @ replicate (Suc n) (Fin 0)"
    using l by (simp add: b replicate_app_Cons_same)
  ultimately show ?case using w' by simp
qed

lemma empty_mask_result:
  assumes "rect H W msk" and "mask_sum msk = 0" and "0 < max_iter"
  shows "bilateral_normal_integration cg normal_map msk k lambda1 depth K step_size max_iter tol
      cg_max_iter cg_tol
    = Inr \<lparr>out_depth_map = nan_like msk, out_facets = [],
           out_wu_map = nan_like msk, out_wv_map = nan_like msk,
           out_energy_list = replicate max_iter (Fin 0)\<rparr>"
proof -
  let ?sys = "assemble normal_map msk K step_size"
  let ?pr = "map_option (\<lambda>(depth_map, depth_mask). make_prior depth_map depth_mask msk (K \<noteq> None)) depth"
  have e0: "st_energy (initial_state ?sys msk) = Fin 0"
    by (simp add: initial_state_def Let_def quadratic_energy_def empty_system[OF assms(2) refl]
        fvsub_def fvmul_def)
  have l0: "st_energy_list (initial_state ?sys msk) = []"
    by (simp add: initial_state_def Let_def)
  from empty_loop[where sys = "assemble normal_map msk K step_size" and nm = normal_map
      and K = K and s = step_size and cg = cg and k = k and ?lambda1.0 = lambda1
      and cg_max_iter = cg_max_iter and cg_tol = cg_tol and tol = tol and n = max_iter
      and pr = ?pr, OF assms(2) refl e0]
  obtain st' where
    r: "irls_loop (irls_iteration cg ?sys ?pr k lambda1 cg_max_iter cg_tol) tol max_iter
          (initial_state ?sys msk) = (st', Exhausted)"
    and l: "st_energy_list st' = replicate max_iter (Fin 0)"
    and w: "st_wu st' = Some []" "st_wv st' = Some []"
    using assms(3) l0 by auto
  have n: "map (map fexp) (nan_like msk) = nan_like msk"
    by (simp add: nan_like_def comp_def)
  have f: "finish normal_map msk persp st'
      = Inr \<lparr>out_depth_map = nan_like msk, out_facets = [],
           out_wu_map = nan_like msk, out_wv_map = nan_like msk,
           out_energy_list = replicate max_iter (Fin 0)\<rparr>" for persp
    by (simp add: finish_def Let_def empty_put[OF assms(2)] empty_facets[OF assms(1,2)] w l n)
  show ?thesis
    unfolding bilateral_normal_integration_def Let_def r fst_conv by (rule f)
qed

text \<open>
  Claim C3, as the code has it. The function does not check the number of valid pixels.
  On a mask with no valid pixel, without a depth prior and with at least one iteration
  allowed, it computes on empty vectors: every energy is 0, the relative energy 0/0 is
  never below \<open>tol\<close>, all \<open>max_iter\<close> iterations run, and the outputs are a depth map
  and two weight maps that are NaN everywhere, no facet, and \<open>max_iter\<close> energies 0.
\<close>

theorem empty_mask_not_rejected:
  assumes "rect H W msk" and "mask_sum msk = 0" and "0 < max_iter"
  shows "bilateral_normal_integration cg normal_map msk k lambda1 None K step_size max_iter tol
      cg_max_iter cg_tol
    = Inr \<lparr>out_depth_map = nan_like msk, out_facets = [],
           out_wu_map = nan_like msk, out_wv_map = nan_like msk,
           out_energy_list = replicate max_iter (Fin 0)\<rparr>"
  using assms by (rule empty_mask_result)

theorem empty_mask_not_rejected_witness:
  "rect 1 2 [[False, False]] \<and> mask_sum [[False, False]] = 0 \<and> (0::nat) < 3
   \<and> bilateral_normal_integration warm_start_solver [[(0, 0, - 1), (0, 0, - 1)]] [[False, False]]
        2 0 None None 1 3 (1 / 10000) 500 (1 / 100000)
      = Inr \<lparr>out_depth_map = nan_like [[False, False]], out_facets = [],
             out_wu_map = nan_like [[False, False]], out_wv_map = nan_like [[False, False]],
             out_energy_list = replicate 3 (Fin 0)\<rparr>"
proof -
  have h: "rect 1 2 [[False, False]]" "mask_sum [[False, False]] = 0" "(0::nat) < 3"
    by (simp_all add: rect_def mask_sum_def)
  show ?thesis
    using empty_mask_not_rejected[OF h, of warm_start_solver "[[(0, 0, - 1), (0, 0, - 1)]]" 2 0
        None 1 "1 / 10000" 500 "1 / 100000"] h
    by blast
qed

text \<open>
  The claim as written has the call fail with an InvalidInput error: on the mask of one
  invalid pixel it returns.
\<close>

theorem empty_mask_counterexample:
  "bilateral_normal_integration warm_start_solver [[(0, 0, - 1)]] [[False]]
        2 0 None None 1 100 (1 / 10000) 500 (1 / 100000)
      = Inr \<lparr>out_depth_map = [[NaN]], out_facets = [],
             out_wu_map = [[NaN]], out_wv_map = [[NaN]],
             out_energy_list = replicate 100 (Fin 0)\<rparr>"
proof -
  have h: "rect 1 1 [[False]]" "mask_sum [[False]] = 0" "(0::nat) < 100"
    by (simp_all add: rect_def mask_sum_def)
  show ?thesis
    using empty_mask_result[OF h, of warm_start_solver "[[(0, 0, - 1)]]" 2 0 None None 1
        "1 / 10000" 500 "1 / 100000"]
    by (simp add: nan_like_def)
qed

end
